theory Spec2Isabelle
  imports Complex_Main "HOL-Library.Word" "HOL-Library.Log_Nat"
begin

section \<open>Python values used by the sandbox subsystem\<close>

text \<open>
  Python \<open>str\<close> is modelled as \<^typ>\<open>string\<close> and \<open>bytes\<close> as a list of 8-bit words.
  An exception is a class together with the text that \<open>str(e)\<close> yields. Only
  subclasses of \<open>Exception\<close> are modelled; task cancellation is not.
  \<open>TimeoutError\<close> is the class that \<open>asyncio.TimeoutError\<close> names (the builtin one since
  Python 3.11).
\<close>

type_synonym bytes = "8 word list"

datatype exn_class =
    RuntimeError | ValueError | NotImplementedError | FileNotFoundError
  | DockerNotFound | DockerImageNotFound | DockerAPIError
  | UnicodeDecodeError | KeyError | TypeError | TimeoutError | OtherException

datatype exn = Exn exn_class string

fun exn_str :: "exn \<Rightarrow> string" where
  "exn_str (Exn c m) = m"

fun exn_cls :: "exn \<Rightarrow> exn_class" where
  "exn_cls (Exn c m) = c"

text \<open>\<open>docker.errors.ImageNotFound\<close> is a subclass of \<open>docker.errors.NotFound\<close>.\<close>

definition is_docker_NotFound :: "exn \<Rightarrow> bool" where
  "is_docker_NotFound x = (exn_cls x = DockerNotFound \<or> exn_cls x = DockerImageNotFound)"

definition lower_char :: "char \<Rightarrow> char" where
  "lower_char c =
     (case map_of (zip ''ABCDEFGHIJKLMNOPQRSTUVWXYZ'' ''abcdefghijklmnopqrstuvwxyz'') c of
        Some d \<Rightarrow> d
      | None \<Rightarrow> c)"

text \<open>
  \<open>str.lower()\<close>. Characters outside the ASCII capitals are left as they are; no
  non-ASCII character lower-cases to a letter of the five status words compared below.
\<close>

definition lower :: "string \<Rightarrow> string" where
  "lower s = map lower_char s"

definition startswith :: "string \<Rightarrow> string \<Rightarrow> bool" where
  "startswith s p = (take (length p) s = p)"

text \<open>\<open>str.replace(old, new)\<close>: every non-overlapping occurrence, left to right.\<close>

function replace :: "string \<Rightarrow> string \<Rightarrow> string \<Rightarrow> string" where
  "replace [] old new = (if old = [] then new else [])"
| "replace (c # cs) old new =
     (if old = [] then new @ c # replace cs old new
      else if take (length old) (c # cs) = old
        then new @ replace (drop (length old) (c # cs)) old new
      else c # replace cs old new)"
  by pat_completeness auto
termination
  by (relation "measure (\<lambda>(s, old, new). length s)") (auto simp: neq_Nil_conv)

fun str_nat :: "nat \<Rightarrow> string" where
  "str_nat n =
     (if n < 10 then [''0123456789'' ! n]
      else str_nat (n div 10) @ [''0123456789'' ! (n mod 10)])"

declare str_nat.simps [simp del]

definition str_int :: "int \<Rightarrow> string" where
  "str_int i = (if i < 0 then CHR ''-'' # str_nat (nat (- i)) else str_nat (nat i))"

text \<open>The values a metadata dictionary (\<open>Dict[str, Any]\<close>) holds, and \<open>str(value)\<close>.\<close>

datatype py_value = PStr string | PInt int | PBool bool | PNone


text \<open>
  A \<open>dict\<close> is an association list in insertion order with distinct keys;
  \<open>d[k] = v\<close> overwrites in place or appends.
\<close>

fun dict_set :: "('k \<times> 'v) list \<Rightarrow> 'k \<Rightarrow> 'v \<Rightarrow> ('k \<times> 'v) list" where
  "dict_set [] k v = [(k, v)]"
| "dict_set ((k', v') # kvs) k v =
     (if k' = k then (k, v) # kvs else (k', v') # dict_set kvs k v)"

section \<open>Sandbox contract (core/sandbox/adapter.py)\<close>

datatype SandboxState = CREATING | STARTED | STOPPED | ARCHIVING | ARCHIVED | ERROR

datatype SandboxProvider = DOCKER | E2B | DAYTONA

record SandboxInfo =
  sandbox_id :: string
  state :: SandboxState
  password :: "string option"
  sandbox_url :: "string option"
  vnc_preview :: "string option"
  token :: "string option"
  metadata :: "(string \<times> py_value) list"

record ExecuteResult =
  exit_code :: int
  stdout :: string
  stderr :: string
  success :: bool
  error :: "string option"

section \<open>The container engine\<close>

text \<open>
  The engine is an external collaborator reached through its client. It is modelled as
  a store of containers keyed by id; each container has a status, labels and a file
  tree. \<open>fault\<close>, when set, is the exception every engine call raises (daemon gone,
  transport error). Paths inside a container are resolved lexically; symbolic links are
  not modelled.
\<close>

datatype node = Dir | File int int bytes

type_synonym fs = "string list \<rightharpoonup> node"

record container =
  status :: string
  labels :: "(string \<times> string) list"
  files :: fs

text \<open>A client-side container object: the id and the attributes fetched with it.\<close>

type_synonym handle = "string \<times> container"

record engine =
  fault :: "exn option"
  images :: "string \<rightharpoonup> fs"
  containers :: "string \<rightharpoonup> container"

definition containers_get :: "engine \<Rightarrow> string \<Rightarrow> exn + handle" where
  "containers_get e sid =
     (case fault e of
        Some x \<Rightarrow> Inl x
      | None \<Rightarrow>
          (case containers e sid of
             None \<Rightarrow> Inl (Exn DockerNotFound (''No such container: '' @ sid))
           | Some c \<Rightarrow> Inr (sid, c)))"



definition container_stop :: "engine \<Rightarrow> handle \<Rightarrow> exn + engine" where
  "container_stop e h =
     (case fault e of
        Some x \<Rightarrow> Inl x
      | None \<Rightarrow>
          (case containers e (fst h) of
             None \<Rightarrow> Inl (Exn DockerNotFound (''No such container: '' @ fst h))
           | Some c \<Rightarrow> Inr (e\<lparr>containers := (containers e)(fst h \<mapsto> c\<lparr>status := ''exited''\<rparr>)\<rparr>)))"

definition container_remove :: "engine \<Rightarrow> handle \<Rightarrow> exn + engine" where
  "container_remove e h =
     (case fault e of
        Some x \<Rightarrow> Inl x
      | None \<Rightarrow>
          (case containers e (fst h) of
             None \<Rightarrow> Inl (Exn DockerNotFound (''No such container: '' @ fst h))
           | Some c \<Rightarrow> Inr (e\<lparr>containers := (containers e)(fst h := None)\<rparr>)))"

subsection \<open>Archives and paths\<close>

text \<open>
  An archive is the list of its entries; the byte layout of the tar format is the
  business of the \<open>tarfile\<close> library and of the engine, which agree on it.
\<close>

record tar_entry =
  name :: string
  tsize :: nat
  tmode :: int
  mtime :: int
  isreg :: bool
  data :: bytes

type_synonym archive = "tar_entry list"

text \<open>\<open>tarfile.TarInfo(name)\<close> with the fields the writer sets afterwards.\<close>

definition TarInfo :: "string \<Rightarrow> nat \<Rightarrow> int \<Rightarrow> int \<Rightarrow> tar_entry" where
  "TarInfo n sz m t = \<lparr>name = n, tsize = sz, tmode = m, mtime = t, isreg = True, data = []\<rparr>"

text \<open>
  \<open>tar.addfile(tarinfo, fileobj)\<close> writes the header and copies exactly \<open>tarinfo.size\<close>
  bytes of the file object. In the header the mode is masked to its permission bits
  (\<open>mode & 0o7777\<close>) and the name ends at its first NUL.
\<close>

definition addfile :: "archive \<Rightarrow> tar_entry \<Rightarrow> bytes \<Rightarrow> exn + archive" where
  "addfile tar ti fileobj =
     (if length fileobj < tsize ti then Inl (Exn OtherException ''unexpected end of data'')
      else Inr (tar @ [ti\<lparr>name := takeWhile (\<lambda>c. c \<noteq> CHR 0x00) (name ti),
                            tmode := tmode ti mod 4096,
                            data := take (tsize ti) fileobj\<rparr>]))"

text \<open>\<open>tar_file.extractfile(member)\<close>: a reader for a regular file, \<open>None\<close> otherwise.\<close>

definition extractfile :: "tar_entry \<Rightarrow> bytes option" where
  "extractfile m = (if isreg m then Some (take (tsize m) (data m)) else None)"

text \<open>\<open>posixpath.split\<close>, \<open>os.path.basename\<close> and \<open>os.path.dirname\<close>.\<close>

definition rstrip_slash :: "string \<Rightarrow> string" where
  "rstrip_slash s = rev (dropWhile (\<lambda>c. c = CHR ''/'') (rev s))"

definition basename :: "string \<Rightarrow> string" where
  "basename p = rev (takeWhile (\<lambda>c. c \<noteq> CHR ''/'') (rev p))"

definition dirname :: "string \<Rightarrow> string" where
  "dirname p =
     (let h = rev (dropWhile (\<lambda>c. c \<noteq> CHR ''/'') (rev p))
      in if h \<noteq> [] \<and> h \<noteq> replicate (length h) CHR ''/'' then rstrip_slash h else h)"

text \<open>How the engine resolves a path inside a container, from the root.\<close>

fun split_slash :: "string \<Rightarrow> string list" where
  "split_slash [] = [[]]"
| "split_slash (c # cs) =
     (if c = CHR ''/'' then [] # split_slash cs
      else (case split_slash cs of x # xs \<Rightarrow> (c # x) # xs | [] \<Rightarrow> [[c]]))"

definition walk :: "string list \<Rightarrow> string \<Rightarrow> string list" where
  "walk acc part =
     (if part = [] \<or> part = ''.'' then acc
      else if part = ''..'' then butlast acc
      else acc @ [part])"

definition resolve :: "string \<Rightarrow> string list" where
  "resolve p = foldl walk [] (split_slash p)"

text \<open>
  \<open>container.put_archive(dest, archive)\<close>: the destination must be an existing
  directory. An entry whose name denotes the destination itself (empty or \<open>.\<close>) is
  skipped. Any other entry named by a single component becomes a regular file of the
  destination, after whatever was at that place, with all below it, has been removed.
  \<open>write_file\<close> only sends an entry named by a basename; an entry named \<open>..\<close> or by a
  path with a slash is answered with an error here.
\<close>

definition remove_all :: "fs \<Rightarrow> string list \<Rightarrow> fs" where
  "remove_all t p = (\<lambda>k. if take (length p) k = p then None else t k)"

fun unpack :: "fs \<Rightarrow> string list \<Rightarrow> archive \<Rightarrow> exn + fs" where
  "unpack t d [] = Inr t"
| "unpack t d (m # ms) =
     (if name m = [] \<or> name m = ''.'' then unpack t d ms
      else if name m = ''..'' \<or> CHR ''/'' \<in> set (name m)
        then Inl (Exn DockerAPIError ''invalid entry name'')
      else unpack ((remove_all t (d @ [name m]))(d @ [name m] \<mapsto> File (tmode m) (mtime m) (data m)))
             d ms)"

definition put_archive :: "engine \<Rightarrow> handle \<Rightarrow> string \<Rightarrow> archive \<Rightarrow> exn + engine" where
  "put_archive e h dest tar =
     (case fault e of
        Some x \<Rightarrow> Inl x
      | None \<Rightarrow>
          (case containers e (fst h) of
             None \<Rightarrow> Inl (Exn DockerNotFound (''No such container: '' @ fst h))
           | Some c \<Rightarrow>
               (if files c (resolve dest) \<noteq> Some Dir
                then Inl (Exn DockerNotFound (''Could not find the file '' @ dest))
                else
                  (case unpack (files c) (resolve dest) tar of
                     Inl x \<Rightarrow> Inl x
                   | Inr t \<Rightarrow> Inr (e\<lparr>containers := (containers e)(fst h \<mapsto> c\<lparr>files := t\<rparr>)\<rparr>)))))"

text \<open>
  \<open>container.get_archive(path)\<close>: an archive whose first entry is the file or directory
  at the path. The entries below a directory are left out.
\<close>

definition get_archive :: "engine \<Rightarrow> handle \<Rightarrow> string \<Rightarrow> exn + archive" where
  "get_archive e h path =
     (case fault e of
        Some x \<Rightarrow> Inl x
      | None \<Rightarrow>
          (case containers e (fst h) of
             None \<Rightarrow> Inl (Exn DockerNotFound (''No such container: '' @ fst h))
           | Some c \<Rightarrow>
               (case files c (resolve path) of
                  None \<Rightarrow> Inl (Exn DockerNotFound (''Could not find the file '' @ path))
                | Some Dir \<Rightarrow>
                    Inr [\<lparr>name = (if resolve path = [] then ''/'' else last (resolve path) @ ''/''),
                          tsize = 0, tmode = 493, mtime = 0, isreg = False, data = []\<rparr>]
                | Some (File m t bs) \<Rightarrow>
                    Inr [\<lparr>name = last (resolve path), tsize = length bs, tmode = m, mtime = t,
                          isreg = True, data = bs\<rparr>])))"

section \<open>Engine-backed adapter (core/sandbox/adapters/docker_sandbox.py)\<close>

text \<open>
  \<open>client\<close> holds the URL of the connected client, or \<open>None\<close> when the connection
  failed at construction. A float is carried as the rational it denotes.
\<close>

record DockerSandboxAdapter =
  docker_url :: string
  image_ref :: string
  network :: string
  memory_limit :: string
  cpu_limit :: rat
  enable_gpu :: bool
  client :: "string option"

definition DEFAULT_IMAGE :: string where
  "DEFAULT_IMAGE = ''kortix-sandbox:latest''"

definition DEFAULT_TIMEOUT :: int where
  "DEFAULT_TIMEOUT = 300"

text \<open>\<open>os.getenv(key, default)\<close> over the process environment.\<close>

definition getenv :: "(string \<rightharpoonup> string) \<Rightarrow> string \<Rightarrow> string \<Rightarrow> string" where
  "getenv env k d = (case env k of None \<Rightarrow> d | Some v \<Rightarrow> v)"

text \<open>\<open>x or y\<close> for an optional string: \<open>None\<close> and the empty string are falsy.\<close>

definition str_or :: "string option \<Rightarrow> string \<Rightarrow> string" where
  "str_or x y = (case x of None \<Rightarrow> y | Some s \<Rightarrow> if s = [] then y else s)"

text \<open>
  \<open>DockerSandboxAdapter.__init__\<close>. \<open>ping url\<close> is the exception, if any, that creating
  the client for \<open>url\<close> and pinging the daemon raises.
\<close>

definition docker_init ::
  "(string \<rightharpoonup> string) \<Rightarrow> (string \<Rightarrow> exn option) \<Rightarrow> string option \<Rightarrow> string option
    \<Rightarrow> string option \<Rightarrow> string \<Rightarrow> rat \<Rightarrow> bool \<Rightarrow> DockerSandboxAdapter" where
  "docker_init env ping url img netw mem cpu gpu =
     (let u = str_or url (getenv env ''DOCKER_HOST'' ''unix:///var/run/docker.sock'')
      in \<lparr>docker_url = u,
          image_ref = str_or img (getenv env ''SANDBOX_IMAGE'' DEFAULT_IMAGE),
          network = str_or netw (getenv env ''SANDBOX_NETWORK'' ''bridge''),
          memory_limit = mem,
          cpu_limit = cpu,
          enable_gpu = gpu,
          client = (case ping u of None \<Rightarrow> Some u | Some x \<Rightarrow> None)\<rparr>)"

definition is_configured :: "DockerSandboxAdapter \<Rightarrow> bool" where
  "is_configured self = (client self \<noteq> None)"



definition get_sandbox :: "DockerSandboxAdapter \<Rightarrow> engine \<Rightarrow> string \<Rightarrow> exn + SandboxInfo" where
  "get_sandbox self e sid =
     (if client self = None then Inl (Exn RuntimeError ''Docker client not initialized'')
      else
        (case containers_get e sid of
           Inl x \<Rightarrow>
             (if is_docker_NotFound x
              then Inl (Exn RuntimeError (''Sandbox '' @ sid @ '' not found''))
              else Inl x)
         | Inr h \<Rightarrow>
             (let st = lower (status (snd h));
                  s = (if st = ''running'' then STARTED
                       else if st \<in> set [''created'', ''restarting''] then CREATING
                       else if st \<in> set [''paused'', ''exited''] then STOPPED
                       else ERROR);
                  md = foldl (\<lambda>md (key, value).
                          if startswith key ''kortix.meta.''
                          then dict_set md (replace key ''kortix.meta.'' '''') (PStr value)
                          else md) [] (labels (snd h))
              in Inr \<lparr>sandbox_id = fst h, state = s, password = None, sandbox_url = None,
                      vnc_preview = None, token = None, metadata = md\<rparr>)))"

datatype log_level = LogDebug | LogInfo | LogWarning | LogError

type_synonym log = "(log_level \<times> string) list"

text \<open>The two handlers of \<open>delete_sandbox\<close>: already deleted, or any other failure.\<close>

definition delete_failed :: "string \<Rightarrow> exn \<Rightarrow> engine \<Rightarrow> (exn + unit) \<times> engine \<times> log" where
  "delete_failed sid x e =
     (if is_docker_NotFound x
      then (Inr (), e, [(LogWarning, ''Docker container already deleted: '' @ sid)])
      else (Inl x, e, [(LogError, ''Failed to delete Docker sandbox: '' @ exn_str x)]))"

definition delete_sandbox ::
  "DockerSandboxAdapter \<Rightarrow> engine \<Rightarrow> string \<Rightarrow> (exn + unit) \<times> engine \<times> log" where
  "delete_sandbox self e sid =
     (if client self = None then (Inl (Exn RuntimeError ''Docker client not initialized''), e, [])
      else
        (case containers_get e sid of
           Inl x \<Rightarrow> delete_failed sid x e
         | Inr h \<Rightarrow>
             (case (if status (snd h) = ''running'' then container_stop e h else Inr e) of
                Inl x \<Rightarrow> delete_failed sid x e
              | Inr e1 \<Rightarrow>
                  (case container_remove e1 h of
                     Inl x \<Rightarrow> delete_failed sid x e1
                   | Inr e2 \<Rightarrow>
                       (Inr (), e2, [(LogInfo, ''Deleted Docker sandbox: '' @ take 12 sid)])))))"

subsection \<open>Command execution\<close>

record exec_config =
  cmd :: "string list"
  workdir :: string
  exec_environment :: "(string \<times> string) list"
  stream :: bool
  demux :: bool

text \<open>What \<open>container.exec_run\<close> returns with \<open>demux=True\<close>: exit code, (stdout, stderr).\<close>

record exec_run_result =
  run_exit_code :: int
  run_output :: "bytes option \<times> bytes option"

text \<open>
  The outcome of \<open>asyncio.wait_for(run_in_executor(exec_run), timeout)\<close>: the offloaded
  call finished, it raised, or the timer elapsed first.
\<close>

datatype wait_outcome = Completed exec_run_result | Raised exn | TimedOut

definition failure_result :: "exn \<Rightarrow> ExecuteResult" where
  "failure_result x =
     \<lparr>exit_code = - 1, stdout = '''', stderr = exn_str x, success = False,
      error = Some (exn_str x)\<rparr>"

text \<open>\<open>b.decode('utf-8') if b else ""\<close>, with \<open>decode\<close> the codec.\<close>

definition decode_or_empty :: "(bytes \<Rightarrow> exn + string) \<Rightarrow> bytes option \<Rightarrow> exn + string" where
  "decode_or_empty decode b =
     (case b of None \<Rightarrow> Inr '''' | Some bs \<Rightarrow> if bs = [] then Inr '''' else decode bs)"

definition timeout_result :: "int \<Rightarrow> ExecuteResult" where
  "timeout_result t =
     \<lparr>exit_code = - 1, stdout = '''',
      stderr = ''Command timeout after '' @ str_int t @ '' seconds'',
      success = False, error = Some ''Timeout''\<rparr>"

text \<open>
  The body of the inner \<open>try\<close>: the raced execution and the decoding of its output.
  When the timer elapses first, \<open>asyncio.wait_for\<close> raises \<open>asyncio.TimeoutError\<close>.
  \<open>run h cfg t\<close> is the outcome of racing the execution of \<open>cfg\<close> in container \<open>h\<close>
  against a timer of \<open>t\<close> seconds.
\<close>

definition run_and_decode ::
  "(bytes \<Rightarrow> exn + string) \<Rightarrow> (handle \<Rightarrow> exec_config \<Rightarrow> int \<Rightarrow> wait_outcome)
    \<Rightarrow> handle \<Rightarrow> exec_config \<Rightarrow> int \<Rightarrow> exn + ExecuteResult" where
  "run_and_decode decode run h cfg t =
     (case run h cfg t of
        TimedOut \<Rightarrow> Inl (Exn TimeoutError '''')
      | Raised x \<Rightarrow> Inl x
      | Completed r \<Rightarrow>
          (case decode_or_empty decode (fst (run_output r)) of
             Inl x \<Rightarrow> Inl x
           | Inr out \<Rightarrow>
               (case decode_or_empty decode (snd (run_output r)) of
                  Inl x \<Rightarrow> Inl x
                | Inr err \<Rightarrow>
                    Inr \<lparr>exit_code = run_exit_code r, stdout = out, stderr = err,
                         success = (run_exit_code r = 0), error = None\<rparr>)))"

text \<open>
  \<open>execute_command\<close>. The inner handler catches the timeout class, whoever raised it;
  the outer handler catches everything else, and a failed container lookup.
\<close>

definition execute_command ::
  "(bytes \<Rightarrow> exn + string) \<Rightarrow> (handle \<Rightarrow> exec_config \<Rightarrow> int \<Rightarrow> wait_outcome)
    \<Rightarrow> DockerSandboxAdapter \<Rightarrow> engine \<Rightarrow> string \<Rightarrow> string \<Rightarrow> string option
    \<Rightarrow> (string \<times> string) list option \<Rightarrow> int option \<Rightarrow> exn + ExecuteResult" where
  "execute_command decode run self e sid command_line working_dir env timeout =
     (if client self = None then Inl (Exn RuntimeError ''Docker client not initialized'')
      else
        (let t = (case timeout of None \<Rightarrow> DEFAULT_TIMEOUT
                  | Some n \<Rightarrow> if n = 0 then DEFAULT_TIMEOUT else n)
         in case containers_get e sid of
              Inl x \<Rightarrow> Inr (failure_result x)
            | Inr h \<Rightarrow>
                (let cfg = \<lparr>cmd = [''/bin/bash'', ''-c'', command_line],
                            workdir = str_or working_dir ''/workspace'',
                            exec_environment = (case env of None \<Rightarrow> [] | Some kvs \<Rightarrow> kvs),
                            stream = False, demux = True\<rparr>
                 in case run_and_decode decode run h cfg t of
                      Inr res \<Rightarrow> Inr res
                    | Inl x \<Rightarrow>
                        (if exn_cls x = TimeoutError then Inr (timeout_result t)
                         else Inr (failure_result x)))))"

subsection \<open>File transfer\<close>

text \<open>\<open>write_file\<close>; \<open>now\<close> is \<open>int(time.time())\<close>. Every failure is logged and re-raised.\<close>

definition write_file ::
  "int \<Rightarrow> DockerSandboxAdapter \<Rightarrow> engine \<Rightarrow> string \<Rightarrow> string \<Rightarrow> bytes \<Rightarrow> int
    \<Rightarrow> (exn + unit) \<times> engine" where
  "write_file now self e sid path content mode =
     (if client self = None then (Inl (Exn RuntimeError ''Docker client not initialized''), e)
      else
        (case containers_get e sid of
           Inl x \<Rightarrow> (Inl x, e)
         | Inr h \<Rightarrow>
             (case addfile [] (TarInfo (basename path) (length content) mode now) content of
                Inl x \<Rightarrow> (Inl x, e)
              | Inr tar_data \<Rightarrow>
                  (let dest_dir = (if dirname path = [] then ''/'' else dirname path)
                   in case put_archive e h dest_dir tar_data of
                        Inl x \<Rightarrow> (Inl x, e)
                      | Inr e' \<Rightarrow> (Inr (), e')))))"

definition read_file :: "DockerSandboxAdapter \<Rightarrow> engine \<Rightarrow> string \<Rightarrow> string \<Rightarrow> exn + bytes" where
  "read_file self e sid path =
     (if client self = None then Inl (Exn RuntimeError ''Docker client not initialized'')
      else
        (case containers_get e sid of
           Inl x \<Rightarrow> Inl x
         | Inr h \<Rightarrow>
             (case get_archive e h path of
                Inl x \<Rightarrow> Inl x
              | Inr tar_file \<Rightarrow>
                  (case tar_file of
                     [] \<Rightarrow> Inl (Exn FileNotFoundError (''File not found: '' @ path))
                   | member # rest \<Rightarrow>
                       (case extractfile member of
                          None \<Rightarrow> Inr []
                        | Some bs \<Rightarrow> Inr bs)))))"

subsection \<open>Binary floating point\<close>

text \<open>
  A Python \<open>float\<close> is carried as the rational it denotes. \<open>to_double\<close> rounds a rational
  to the nearest number with a 53-bit significand, ties to even, as every IEEE 754
  operation does to its exact result; exponent range limits are left out, since the
  magnitudes that arise from 64-bit counters stay far inside them.
\<close>

definition rne :: "rat \<Rightarrow> int" where
  "rne y =
     (let f = \<lfloor>y\<rfloor>; d = y - of_int f
      in if d < 1 / 2 then f else if 1 / 2 < d then f + 1
         else if even f then f else f + 1)"

text \<open>For \<open>x > 0\<close>, the exponent \<open>e\<close> with \<open>2 ^ e \<le> x < 2 ^ (e + 1)\<close>.\<close>

definition expo :: "rat \<Rightarrow> int" where
  "expo x =
     (case quotient_of x of
        (n, d) \<Rightarrow>
          (let e0 = int (floorlog 2 (nat n)) - int (floorlog 2 (nat d))
           in if 2 powi e0 \<le> x then e0 else e0 - 1))"

definition to_double :: "rat \<Rightarrow> rat" where
  "to_double x =
     (if x = 0 then 0
      else (let a = \<bar>x\<bar>; u = 2 powi (expo a - 52)
            in sgn x * of_int (rne (a / u)) * u))"

text \<open>True division of two \<open>int\<close>s, and the product of two floats.\<close>

definition float_div :: "int \<Rightarrow> int \<Rightarrow> rat" where
  "float_div a b = to_double (of_int a / of_int b)"

definition float_mul :: "rat \<Rightarrow> rat \<Rightarrow> rat" where
  "float_mul x y = to_double (x * y)"

text \<open>
  \<open>round(x, n)\<close> on a float: the exact value rounded to \<open>n\<close> decimals, ties to even,
  then the float nearest to that decimal.
\<close>

definition float_round :: "rat \<Rightarrow> nat \<Rightarrow> rat" where
  "float_round x n = to_double (of_int (rne (x * 10 ^ n)) / 10 ^ n)"

subsection \<open>Resource usage\<close>

text \<open>
  The counters \<open>get_resource_usage\<close> reads from \<open>container.stats(stream=False)\<close>: unsigned
  64-bit numbers in the engine's API, which Python reads as \<open>int\<close>. A field is \<open>None\<close>
  when its key is missing from the sample.
\<close>

record docker_stats =
  cpu_total_usage :: "64 word option"
  precpu_total_usage :: "64 word option"
  system_cpu_usage :: "64 word option"
  presystem_cpu_usage :: "64 word option"
  memory_usage :: "64 word option"
  memory_limit_stat :: "64 word option"

record resource_usage =
  cpu_percent :: rat
  memory_bytes :: int
  memory_limit_bytes :: int
  memory_percent :: rat

text \<open>
  \<open>get_resource_usage\<close>. \<open>sample h\<close> is what the engine answers to the stats request.
  The result \<open>None\<close> is the empty dictionary.
\<close>

definition get_resource_usage ::
  "(handle \<Rightarrow> exn + docker_stats) \<Rightarrow> DockerSandboxAdapter \<Rightarrow> engine \<Rightarrow> string
    \<Rightarrow> exn + resource_usage option" where
  "get_resource_usage sample self e sid =
     (if client self = None then Inl (Exn RuntimeError ''Docker client not initialized'')
      else
        (case containers_get e sid of
           Inl x \<Rightarrow> Inr None
         | Inr h \<Rightarrow>
             (case sample h of
                Inl x \<Rightarrow> Inr None
              | Inr stats \<Rightarrow>
                  (case (cpu_total_usage stats, precpu_total_usage stats,
                         system_cpu_usage stats, presystem_cpu_usage stats,
                         memory_usage stats, memory_limit_stat stats) of
                     (Some ct, Some pt, Some sc, Some ps, Some mu, Some ml) \<Rightarrow>
                       (let cpu_delta = uint ct - uint pt;
                            system_delta = uint sc - uint ps;
                            cpu = (if system_delta > 0
                                   then float_mul (float_div cpu_delta system_delta) 100
                                   else 0);
                            mem = (if uint ml > 0
                                   then float_mul (float_div (uint mu) (uint ml)) 100
                                   else 0)
                        in Inr (Some \<lparr>cpu_percent = float_round cpu 2,
                                      memory_bytes = uint mu,
                                      memory_limit_bytes = uint ml,
                                      memory_percent = float_round mem 2\<rparr>))
                   | _ \<Rightarrow> Inr None))))"

section \<open>Sandbox factory (core/sandbox/factory.py)\<close>

record SandboxFactory =
  provider :: SandboxProvider
  cached_adapter :: "DockerSandboxAdapter option"

fun provider_value :: "SandboxProvider \<Rightarrow> string" where
  "provider_value DOCKER = ''docker''"
| "provider_value E2B = ''e2b''"
| "provider_value DAYTONA = ''daytona''"

text \<open>\<open>if os.getenv(key)\<close>: set and not empty.\<close>

definition env_truthy :: "(string \<rightharpoonup> string) \<Rightarrow> string \<Rightarrow> bool" where
  "env_truthy env k = (case env k of None \<Rightarrow> False | Some v \<Rightarrow> v \<noteq> [])"

definition detect_provider :: "(string \<rightharpoonup> string) \<Rightarrow> SandboxProvider" where
  "detect_provider env =
     (let provider_env = lower (getenv env ''SANDBOX_PROVIDER'' '''');
          cloud_provider = lower (getenv env ''CLOUD_PROVIDER'' '''')
      in if provider_env = ''docker'' then DOCKER
         else if provider_env = ''e2b'' then E2B
         else if provider_env = ''daytona'' then DAYTONA
         else if cloud_provider \<in> set [''aliyun'', ''tencent'', ''local''] then DOCKER
         else if cloud_provider = ''supabase''
           then (if env_truthy env ''E2B_API_KEY'' then E2B else DOCKER)
         else if env_truthy env ''E2B_API_KEY'' then E2B
         else if env_truthy env ''DAYTONA_API_KEY'' then DAYTONA
         else DOCKER)"

definition factory_init :: "(string \<rightharpoonup> string) \<Rightarrow> SandboxFactory" where
  "factory_init env = \<lparr>provider = detect_provider env, cached_adapter = None\<rparr>"

text \<open>\<open>_create_docker_adapter\<close>; \<open>to_float\<close> is Python's \<open>float(str)\<close>.\<close>

definition create_docker_adapter ::
  "(string \<rightharpoonup> string) \<Rightarrow> (string \<Rightarrow> exn option) \<Rightarrow> (string \<Rightarrow> exn + rat)
    \<Rightarrow> exn + DockerSandboxAdapter" where
  "create_docker_adapter env ping to_float =
     (case to_float (getenv env ''SANDBOX_CPU_LIMIT'' ''1.0'') of
        Inl x \<Rightarrow> Inl x
      | Inr cpu \<Rightarrow>
          Inr (docker_init env ping (env ''DOCKER_HOST'')
                 (Some (getenv env ''SANDBOX_IMAGE'' ''kortix-sandbox:latest''))
                 (env ''SANDBOX_NETWORK'')
                 (getenv env ''SANDBOX_MEMORY_LIMIT'' ''512m'')
                 cpu
                 (lower (getenv env ''SANDBOX_ENABLE_GPU'' ''false'') = ''true'')))"

definition create_e2b_adapter :: "exn + DockerSandboxAdapter" where
  "create_e2b_adapter = Inl (Exn NotImplementedError ''E2B adapter not yet implemented'')"

definition create_daytona_adapter :: "exn + DockerSandboxAdapter" where
  "create_daytona_adapter =
     Inl (Exn NotImplementedError
       (''Daytona adapter not implemented. '' @ ''Please migrate to Docker or E2B. ''
          @ ''Set SANDBOX_PROVIDER=docker to use Docker sandboxes.''))"

text \<open>
  \<open>get_adapter\<close>: the result and the factory afterwards. The adapter is stored in the
  factory as soon as it is constructed; the check of \<open>is_configured\<close> comes after.
\<close>

definition get_adapter ::
  "(string \<rightharpoonup> string) \<Rightarrow> (string \<Rightarrow> exn option) \<Rightarrow> (string \<Rightarrow> exn + rat) \<Rightarrow> SandboxFactory
    \<Rightarrow> (exn + DockerSandboxAdapter) \<times> SandboxFactory" where
  "get_adapter env ping to_float self =
     (case cached_adapter self of
        Some a \<Rightarrow> (Inr a, self)
      | None \<Rightarrow>
          (case (case provider self of
                   DOCKER \<Rightarrow> create_docker_adapter env ping to_float
                 | E2B \<Rightarrow> create_e2b_adapter
                 | DAYTONA \<Rightarrow> create_daytona_adapter) of
             Inl x \<Rightarrow> (Inl x, self)
           | Inr a \<Rightarrow>
               (let self' = self\<lparr>cached_adapter := Some a\<rparr>
                in if \<not> is_configured a
                   then (Inl (Exn RuntimeError
                           (''Sandbox provider '' @ [CHR 0x27] @ provider_value (provider self)
                              @ [CHR 0x27] @ '' is not properly configured. ''
                              @ ''Please check your environment variables and service availability.'')),
                         self')
                   else (Inr a, self'))))"

section \<open>Compatibility shim (core/sandbox/compat.py)\<close>

text \<open>
  The shim talks to whichever adapter the factory resolved. The adapter and the engine
  behind it are modelled by what they answer: \<open>reports k\<close> is the answer to the
  \<open>k\<close>-th \<open>get_sandbox\<close> call, \<open>start_report\<close> the answer to \<open>start_sandbox\<close>. The counters
  record the calls made and the seconds slept.
\<close>

record world =
  reports :: "nat \<Rightarrow> exn + SandboxInfo"
  start_report :: "exn + SandboxInfo"
  queries :: nat
  starts :: nat
  slept :: nat

definition adapter_get_sandbox :: "world \<Rightarrow> string \<Rightarrow> (exn + SandboxInfo) \<times> world" where
  "adapter_get_sandbox w sid = (reports w (queries w), w\<lparr>queries := Suc (queries w)\<rparr>)"

definition adapter_start_sandbox :: "world \<Rightarrow> string \<Rightarrow> (exn + SandboxInfo) \<times> world" where
  "adapter_start_sandbox w sid = (start_report w, w\<lparr>starts := Suc (starts w)\<rparr>)"

definition sleep :: "nat \<Rightarrow> world \<Rightarrow> world" where
  "sleep n w = w\<lparr>slept := slept w + n\<rparr>"

text \<open>\<open>CompatSandbox\<close>; \<open>cached_state\<close> is the attribute \<open>_state\<close>.\<close>

record CompatSandbox =
  ident :: string
  compat_sandbox_id :: string
  compat_metadata :: "(string \<times> py_value) list"
  cached_state :: "SandboxState option"

definition compat_init :: "string \<Rightarrow> (string \<times> py_value) list \<Rightarrow> CompatSandbox" where
  "compat_init sid md =
     \<lparr>ident = sid, compat_sandbox_id = sid, compat_metadata = md, cached_state = None\<rparr>"

definition get_state :: "CompatSandbox \<Rightarrow> world \<Rightarrow> (exn + SandboxState) \<times> CompatSandbox \<times> world" where
  "get_state self w =
     (case cached_state self of
        Some s \<Rightarrow> (Inr s, self, w)
      | None \<Rightarrow>
          (case adapter_get_sandbox w (compat_sandbox_id self) of
             (Inl x, w') \<Rightarrow> (Inl x, self, w')
           | (Inr info, w') \<Rightarrow>
               (Inr (state info), self\<lparr>cached_state := Some (state info)\<rparr>, w')))"

text \<open>The synchronous property \<open>state\<close>.\<close>

definition state_property :: "CompatSandbox \<Rightarrow> SandboxState option" where
  "state_property self = cached_state self"

text \<open>The loop \<open>for _ in range(n)\<close> of \<open>get_or_start_sandbox\<close>, \<open>info\<close> being the last answer.\<close>

fun poll :: "nat \<Rightarrow> world \<Rightarrow> string \<Rightarrow> SandboxInfo \<Rightarrow> (exn + SandboxInfo) \<times> world" where
  "poll 0 w sid info = (Inr info, w)"
| "poll (Suc n) w sid info =
     (case adapter_get_sandbox (sleep 1 w) sid of
        (Inl x, w') \<Rightarrow> (Inl x, w')
      | (Inr info', w') \<Rightarrow>
          (if state info' = STARTED then (Inr info', w') else poll n w' sid info'))"

text \<open>
  \<open>get_or_start_sandbox\<close>; \<open>resolved\<close> is the exception, if any, that resolving the
  adapter through the factory raises.
\<close>

definition get_or_start_sandbox ::
  "exn option \<Rightarrow> world \<Rightarrow> string \<Rightarrow> (exn + CompatSandbox) \<times> world" where
  "get_or_start_sandbox resolved w sid =
     (case resolved of
        Some x \<Rightarrow> (Inl x, w)
      | None \<Rightarrow>
          (case adapter_get_sandbox w sid of
             (Inl x, w1) \<Rightarrow> (Inl x, w1)
           | (Inr info, w1) \<Rightarrow>
               (if state info \<in> set [STOPPED, ARCHIVED]
                then
                  (case adapter_start_sandbox w1 sid of
                     (Inl x, w2) \<Rightarrow> (Inl x, w2)
                   | (Inr started, w2) \<Rightarrow>
                       (case poll 30 w2 sid info of
                          (Inl x, w3) \<Rightarrow> (Inl x, w3)
                        | (Inr info', w3) \<Rightarrow> (Inr (compat_init sid (metadata info')), w3)))
                else (Inr (compat_init sid (metadata info)), w1))))"

section \<open>Example inputs\<close>

definition adapter0 :: DockerSandboxAdapter where
  "adapter0 = \<lparr>docker_url = ''unix:///var/run/docker.sock'', image_ref = ''kortix-sandbox:latest'',
                network = ''bridge'', memory_limit = ''512m'', cpu_limit = 1, enable_gpu = False,
                client = Some ''unix:///var/run/docker.sock''\<rparr>"

definition root_fs :: fs where
  "root_fs = [[] \<mapsto> Dir, [''workspace''] \<mapsto> Dir]"

definition engine_with_status :: "string \<Rightarrow> engine" where
  "engine_with_status s =
     \<lparr>fault = None, images = Map.empty,
      containers = [''c1'' \<mapsto> \<lparr>status = s, labels = [], files = root_fs\<rparr>]\<rparr>"

text \<open>
  The status table as the specification words it, applied to the status string as
  given: the five listed words, anything else is an error.
\<close>

definition spec_state_of_status :: "string \<Rightarrow> SandboxState" where
  "spec_state_of_status s =
     (if s = ''running'' then STARTED
      else if s = ''created'' \<or> s = ''restarting'' then CREATING
      else if s = ''paused'' \<or> s = ''exited'' then STOPPED
      else ERROR)"

definition decode_bytes :: "bytes \<Rightarrow> exn + string" where
  "decode_bytes bs = Inr (map (\<lambda>b. char_of (unat b)) bs)"

definition run_times_out :: "handle \<Rightarrow> exec_config \<Rightarrow> int \<Rightarrow> wait_outcome" where
  "run_times_out h cfg t = TimedOut"

definition run_raises_blank :: "handle \<Rightarrow> exec_config \<Rightarrow> int \<Rightarrow> wait_outcome" where
  "run_raises_blank h cfg t = Raised (Exn OtherException '''')"

definition decode_invalid :: "bytes \<Rightarrow> exn + string" where
  "decode_invalid bs = Inl (Exn UnicodeDecodeError ''invalid start byte'')"

definition run_prints :: "handle \<Rightarrow> exec_config \<Rightarrow> int \<Rightarrow> wait_outcome" where
  "run_prints h cfg t = Completed \<lparr>run_exit_code = 0, run_output = (Some [255], None)\<rparr>"

definition ping_refused :: "string \<Rightarrow> exn option" where
  "ping_refused url = Some (Exn OtherException ''Connection refused'')"

definition float_one :: "string \<Rightarrow> exn + rat" where
  "float_one s = Inr 1"

definition info_in :: "SandboxState \<Rightarrow> SandboxInfo" where
  "info_in s = \<lparr>sandbox_id = ''c1'', state = s, password = None, sandbox_url = None,
                 vnc_preview = None, token = None, metadata = []\<rparr>"

text \<open>An engine that reports STOPPED twice and STARTED from then on.\<close>

definition slow_start :: "nat \<Rightarrow> SandboxInfo" where
  "slow_start k = info_in (if k < 2 then STOPPED else STARTED)"

definition world_of :: "(nat \<Rightarrow> SandboxInfo) \<Rightarrow> world" where
  "world_of s = \<lparr>reports = (\<lambda>k. Inr (s k)), start_report = Inr (s 0), queries = 0,
                  starts = 0, slept = 0\<rparr>"

text \<open>A stats sample in which the container used twice the CPU time the system counter advanced.\<close>

definition stats_busy :: docker_stats where
  "stats_busy = \<lparr>cpu_total_usage = Some 300, precpu_total_usage = Some 100,
                  system_cpu_usage = Some 200, presystem_cpu_usage = Some 100,
                  memory_usage = Some 1, memory_limit_stat = Some 2\<rparr>"

definition sample_busy :: "handle \<Rightarrow> exn + docker_stats" where
  "sample_busy h = Inr stats_busy"

definition stats_calm :: docker_stats where
  "stats_calm = \<lparr>cpu_total_usage = Some 150, precpu_total_usage = Some 100,
                  system_cpu_usage = Some 300, presystem_cpu_usage = Some 100,
                  memory_usage = Some 1, memory_limit_stat = Some 2\<rparr>"

definition sample_calm :: "handle \<Rightarrow> exn + docker_stats" where
  "sample_calm h = Inr stats_calm"




section \<open>Status mapping\<close>

lemma get_sandbox_state_of_lowered:
  assumes "client self \<noteq> None" and "containers_get e sid = Inr h"
  shows "\<exists>info. get_sandbox self e sid = Inr info
           \<and> state info = spec_state_of_status (lower (status (snd h)))"
  using assms
  by (auto simp: get_sandbox_def spec_state_of_status_def Let_def)

text \<open>
  C5: for every status the engine reports, \<open>get_sandbox\<close> returns the state the table
  gives: \<open>running\<close> is STARTED, \<open>created\<close> and \<open>restarting\<close> are CREATING, \<open>paused\<close> and
  \<open>exited\<close> are STOPPED, anything else is ERROR. The engine's status words are written
  in lower case, so lower-casing leaves them as they are.
\<close>

theorem get_sandbox_status_table:
  assumes "client self \<noteq> None"
    and "containers_get e sid = Inr h"
    and "lower (status (snd h)) = status (snd h)"
  shows "\<exists>info. get_sandbox self e sid = Inr info
           \<and> state info = spec_state_of_status (status (snd h))"
  using get_sandbox_state_of_lowered [OF assms(1) assms(2)] assms(3) by simp

theorem get_sandbox_status_table_witness:
  "client adapter0 \<noteq> None
   \<and> containers_get (engine_with_status ''exited'') ''c1''
       = Inr (''c1'', \<lparr>status = ''exited'', labels = [], files = root_fs\<rparr>)
   \<and> lower ''exited'' = ''exited''
   \<and> map_sum id state (get_sandbox adapter0 (engine_with_status ''exited'') ''c1'') = Inr STOPPED
   \<and> map_sum id state (get_sandbox adapter0 (engine_with_status ''dead'') ''c1'') = Inr ERROR"
proof -
  have c: "client adapter0 \<noteq> None"
    by (simp add: adapter0_def)
  have g: "containers_get (engine_with_status ''exited'') ''c1''
             = Inr (''c1'', \<lparr>status = ''exited'', labels = [], files = root_fs\<rparr>)"
    by (simp add: containers_get_def engine_with_status_def)
  have g': "containers_get (engine_with_status ''dead'') ''c1''
             = Inr (''c1'', \<lparr>status = ''dead'', labels = [], files = root_fs\<rparr>)"
    by (simp add: containers_get_def engine_with_status_def)
  have l: "lower ''exited'' = ''exited''" and l': "lower ''dead'' = ''dead''"
    by (simp_all add: lower_def lower_char_def)
  have s: "spec_state_of_status ''exited'' = STOPPED"
    and s': "spec_state_of_status ''dead'' = ERROR"
    by (simp_all add: spec_state_of_status_def)
  from get_sandbox_status_table [OF c g] l s
  have 1: "map_sum id state (get_sandbox adapter0 (engine_with_status ''exited'') ''c1'')
             = Inr STOPPED"
    by auto
  from get_sandbox_status_table [OF c g'] l' s'
  have 2: "map_sum id state (get_sandbox adapter0 (engine_with_status ''dead'') ''c1'')
             = Inr ERROR"
    by auto
  from c g l 1 2 show ?thesis by simp
qed

section \<open>Command execution\<close>

text \<open>
  C1: on an initialized adapter, when the container is found and the timer elapses
  before the offloaded execution completes, \<open>execute_command\<close> returns the result with
  exit code -1, \<open>success\<close> false and the error \<open>Timeout\<close>. The result is fixed by the
  timer alone: nothing the process does later enters it.
\<close>

theorem execute_command_timeout:
  assumes "client self \<noteq> None"
    and "containers_get e sid = Inr h"
    and "run h \<lparr>cmd = [''/bin/bash'', ''-c'', command_line],
                 workdir = str_or working_dir ''/workspace'',
                 exec_environment = (case env of None \<Rightarrow> [] | Some kvs \<Rightarrow> kvs),
                 stream = False, demux = True\<rparr> t = TimedOut"
    and "t = (case timeout of None \<Rightarrow> DEFAULT_TIMEOUT
              | Some n \<Rightarrow> if n = 0 then DEFAULT_TIMEOUT else n)"
  shows "execute_command decode run self e sid command_line working_dir env timeout
           = Inr \<lparr>exit_code = - 1, stdout = '''',
                  stderr = ''Command timeout after '' @ str_int t @ '' seconds'',
                  success = False, error = Some ''Timeout''\<rparr>"
  using assms
  by (simp add: execute_command_def run_and_decode_def timeout_result_def Let_def)

theorem execute_command_timeout_witness:
  "client adapter0 \<noteq> None
   \<and> containers_get (engine_with_status ''running'') ''c1''
       = Inr (''c1'', \<lparr>status = ''running'', labels = [], files = root_fs\<rparr>)
   \<and> execute_command decode_bytes run_times_out adapter0 (engine_with_status ''running'') ''c1''
         ''sleep 60'' None None (Some 5)
       = Inr \<lparr>exit_code = - 1, stdout = '''', stderr = ''Command timeout after 5 seconds'',
              success = False, error = Some ''Timeout''\<rparr>"
proof -
  have c: "client adapter0 \<noteq> None"
    by (simp add: adapter0_def)
  have g: "containers_get (engine_with_status ''running'') ''c1''
             = Inr (''c1'', \<lparr>status = ''running'', labels = [], files = root_fs\<rparr>)"
    by (simp add: containers_get_def engine_with_status_def)
  have s: "str_int 5 = ''5''"
    by (simp add: str_int_def str_nat.simps)
  have "execute_command decode_bytes run_times_out adapter0 (engine_with_status ''running'') ''c1''
          ''sleep 60'' None None (Some 5)
        = Inr \<lparr>exit_code = - 1, stdout = '''',
               stderr = ''Command timeout after '' @ str_int 5 @ '' seconds'',
               success = False, error = Some ''Timeout''\<rparr>"
    by (rule execute_command_timeout [OF c g]) (simp_all add: run_times_out_def)
  with c g s show ?thesis by simp
qed

text \<open>
  C9 (as stated): every failure other than a timeout yields a non-empty error string.
  The error string is \<open>str(e)\<close>, and an exception raised with no message has an empty
  one.
\<close>

theorem execute_command_blank_error_counterexample:
  "map_sum id error
     (execute_command decode_bytes run_raises_blank adapter0 (engine_with_status ''running'')
        ''c1'' ''ls'' None None None) = Inr (Some '''')"
  by (simp add: execute_command_def run_and_decode_def containers_get_def engine_with_status_def
      adapter0_def run_raises_blank_def failure_result_def Let_def)

text \<open>
  C9 (amended): on an initialized adapter \<open>execute_command\<close> always returns a result and
  never raises. A failed container lookup, an exception raised by the execution and a
  failure to decode stdout or stderr are each returned as the result with exit code -1,
  \<open>success\<close> false, empty \<open>stdout\<close>, and \<open>stderr\<close> and \<open>error\<close> both equal to \<open>str(e)\<close>,
  unless the execution or the decoding raised the timeout class, which is returned as
  the timeout result. When nothing fails, the exit code and the decoded output of the
  command are returned with \<open>error\<close> unset.
\<close>

theorem execute_command_never_raises:
  assumes "client self \<noteq> None"
    and "cfg = \<lparr>cmd = [''/bin/bash'', ''-c'', command_line],
                workdir = str_or working_dir ''/workspace'',
                exec_environment = (case env of None \<Rightarrow> [] | Some kvs \<Rightarrow> kvs),
                stream = False, demux = True\<rparr>"
    and "t = (case timeout of None \<Rightarrow> DEFAULT_TIMEOUT
              | Some n \<Rightarrow> if n = 0 then DEFAULT_TIMEOUT else n)"
    and "res = execute_command decode run self e sid command_line working_dir env timeout"
  shows "(\<exists>r. res = Inr r)
         \<and> (\<forall>x. containers_get e sid = Inl x \<longrightarrow>
              res = Inr \<lparr>exit_code = - 1, stdout = '''', stderr = exn_str x, success = False,
                         error = Some (exn_str x)\<rparr>)
         \<and> (\<forall>h x. containers_get e sid = Inr h \<and> run h cfg t = Raised x
                 \<and> exn_cls x \<noteq> TimeoutError \<longrightarrow>
              res = Inr \<lparr>exit_code = - 1, stdout = '''', stderr = exn_str x, success = False,
                         error = Some (exn_str x)\<rparr>)
         \<and> (\<forall>h r x. containers_get e sid = Inr h \<and> run h cfg t = Completed r
                 \<and> decode_or_empty decode (fst (run_output r)) = Inl x
                 \<and> exn_cls x \<noteq> TimeoutError \<longrightarrow>
              res = Inr \<lparr>exit_code = - 1, stdout = '''', stderr = exn_str x, success = False,
                         error = Some (exn_str x)\<rparr>)
         \<and> (\<forall>h r out x. containers_get e sid = Inr h \<and> run h cfg t = Completed r
                 \<and> decode_or_empty decode (fst (run_output r)) = Inr out
                 \<and> decode_or_empty decode (snd (run_output r)) = Inl x
                 \<and> exn_cls x \<noteq> TimeoutError \<longrightarrow>
              res = Inr \<lparr>exit_code = - 1, stdout = '''', stderr = exn_str x, success = False,
                         error = Some (exn_str x)\<rparr>)
         \<and> (\<forall>h r out err. containers_get e sid = Inr h \<and> run h cfg t = Completed r
                 \<and> decode_or_empty decode (fst (run_output r)) = Inr out
                 \<and> decode_or_empty decode (snd (run_output r)) = Inr err \<longrightarrow>
              res = Inr \<lparr>exit_code = run_exit_code r, stdout = out, stderr = err,
                         success = (run_exit_code r = 0), error = None\<rparr>)
         \<and> (\<forall>h x. containers_get e sid = Inr h \<and> run_and_decode decode run h cfg t = Inl x
                 \<and> exn_cls x = TimeoutError \<longrightarrow>
              res = Inr \<lparr>exit_code = - 1, stdout = '''',
                         stderr = ''Command timeout after '' @ str_int t @ '' seconds'',
                         success = False, error = Some ''Timeout''\<rparr>)"
proof (intro conjI allI impI)
  show "\<exists>r. res = Inr r"
    using assms
    by (auto simp: execute_command_def Let_def split: sum.splits)
next
  fix x assume "containers_get e sid = Inl x"
  then show "res = Inr \<lparr>exit_code = - 1, stdout = '''', stderr = exn_str x, success = False,
                         error = Some (exn_str x)\<rparr>"
    using assms by (simp add: execute_command_def failure_result_def Let_def)
next
  fix h x assume "containers_get e sid = Inr h \<and> run h cfg t = Raised x
                 \<and> exn_cls x \<noteq> TimeoutError"
  then show "res = Inr \<lparr>exit_code = - 1, stdout = '''', stderr = exn_str x, success = False,
                         error = Some (exn_str x)\<rparr>"
    using assms
    by (simp add: execute_command_def run_and_decode_def failure_result_def Let_def)
next
  fix h r x assume "containers_get e sid = Inr h \<and> run h cfg t = Completed r
                 \<and> decode_or_empty decode (fst (run_output r)) = Inl x
                 \<and> exn_cls x \<noteq> TimeoutError"
  then show "res = Inr \<lparr>exit_code = - 1, stdout = '''', stderr = exn_str x, success = False,
                         error = Some (exn_str x)\<rparr>"
    using assms
    by (simp add: execute_command_def run_and_decode_def failure_result_def Let_def)
next
  fix h r out x assume "containers_get e sid = Inr h \<and> run h cfg t = Completed r
                 \<and> decode_or_empty decode (fst (run_output r)) = Inr out
                 \<and> decode_or_empty decode (snd (run_output r)) = Inl x
                 \<and> exn_cls x \<noteq> TimeoutError"
  then show "res = Inr \<lparr>exit_code = - 1, stdout = '''', stderr = exn_str x, success = False,
                         error = Some (exn_str x)\<rparr>"
    using assms
    by (simp add: execute_command_def run_and_decode_def failure_result_def Let_def)
next
  fix h r out err assume "containers_get e sid = Inr h \<and> run h cfg t = Completed r
                 \<and> decode_or_empty decode (fst (run_output r)) = Inr out
                 \<and> decode_or_empty decode (snd (run_output r)) = Inr err"
  then show "res = Inr \<lparr>exit_code = run_exit_code r, stdout = out, stderr = err,
                         success = (run_exit_code r = 0), error = None\<rparr>"
    using assms
    by (simp add: execute_command_def run_and_decode_def Let_def)
next
  fix h x assume "containers_get e sid = Inr h \<and> run_and_decode decode run h cfg t = Inl x
                 \<and> exn_cls x = TimeoutError"
  then show "res = Inr \<lparr>exit_code = - 1, stdout = '''',
                         stderr = ''Command timeout after '' @ str_int t @ '' seconds'',
                         success = False, error = Some ''Timeout''\<rparr>"
    using assms
    by (simp add: execute_command_def timeout_result_def Let_def)
qed

theorem execute_command_never_raises_witness:
  "client adapter0 \<noteq> None
   \<and> execute_command decode_bytes run_times_out adapter0 (engine_with_status ''running'')
        ''missing'' ''ls'' None None None
       = Inr \<lparr>exit_code = - 1, stdout = '''', stderr = ''No such container: missing'',
              success = False, error = Some ''No such container: missing''\<rparr>
   \<and> execute_command decode_invalid run_prints adapter0 (engine_with_status ''running'')
        ''c1'' ''ls'' None None None
       = Inr \<lparr>exit_code = - 1, stdout = '''', stderr = ''invalid start byte'',
              success = False, error = Some ''invalid start byte''\<rparr>"
proof -
  have c: "client adapter0 \<noteq> None"
    by (simp add: adapter0_def)
  have g: "containers_get (engine_with_status ''running'') ''missing''
             = Inl (Exn DockerNotFound ''No such container: missing'')"
    by (simp add: containers_get_def engine_with_status_def)
  have g1: "containers_get (engine_with_status ''running'') ''c1''
             = Inr (''c1'', \<lparr>status = ''running'', labels = [], files = root_fs\<rparr>)"
    by (simp add: containers_get_def engine_with_status_def)
  have d: "decode_or_empty decode_invalid (fst (run_output \<lparr>run_exit_code = 0,
              run_output = (Some [255], None)\<rparr>)) = Inl (Exn UnicodeDecodeError ''invalid start byte'')"
    by (simp add: decode_or_empty_def decode_invalid_def)
  from execute_command_never_raises [OF c refl refl refl, of decode_bytes run_times_out
      "engine_with_status ''running''" "''missing''" "''ls''" None None None] g
  have 1: "execute_command decode_bytes run_times_out adapter0 (engine_with_status ''running'')
        ''missing'' ''ls'' None None None
       = Inr \<lparr>exit_code = - 1, stdout = '''', stderr = ''No such container: missing'',
              success = False, error = Some ''No such container: missing''\<rparr>"
    by auto
  from execute_command_never_raises [OF c refl refl refl, of decode_invalid run_prints
      "engine_with_status ''running''" "''c1''" "''ls''" None None None] g1 d
  have 2: "execute_command decode_invalid run_prints adapter0 (engine_with_status ''running'')
        ''c1'' ''ls'' None None None
       = Inr \<lparr>exit_code = - 1, stdout = '''', stderr = ''invalid start byte'',
              success = False, error = Some ''invalid start byte''\<rparr>"
    by (auto simp: run_prints_def)
  from c 1 2 show ?thesis by simp
qed

section \<open>Factory resolution\<close>

text \<open>
  C3: \<open>get_adapter\<close> never hands out an adapter that is not configured, also on a
  repeated call after a failed one. The code stores the adapter before it checks it:
  with the engine unreachable the first call raises, and the second call returns the
  stored, unconfigured adapter.
\<close>

theorem get_adapter_second_call_unconfigured:
  "map_sum exn_cls is_configured
     (fst (get_adapter Map.empty ping_refused float_one (factory_init Map.empty)))
     = Inl RuntimeError
   \<and> map_sum exn_cls is_configured
       (fst (get_adapter Map.empty ping_refused float_one
          (snd (get_adapter Map.empty ping_refused float_one (factory_init Map.empty)))))
     = Inr False"
  by (simp add: get_adapter_def factory_init_def detect_provider_def getenv_def lower_def
      env_truthy_def create_docker_adapter_def float_one_def docker_init_def ping_refused_def
      str_or_def is_configured_def Let_def)

section \<open>Deletion\<close>

lemma delete_sandbox_not_found:
  assumes "client self \<noteq> None" and "containers_get e sid = Inl x" and "is_docker_NotFound x"
  shows "delete_sandbox self e sid
           = (Inr (), e, [(LogWarning, ''Docker container already deleted: '' @ sid)])"
  using assms by (simp add: delete_sandbox_def delete_failed_def)

lemma container_remove_gone:
  assumes "container_remove e (sid, c) = Inr e'"
  shows "containers_get e' sid = Inl (Exn DockerNotFound (''No such container: '' @ sid))"
  using assms
  by (auto simp: container_remove_def containers_get_def split: option.splits)

lemma delete_sandbox_success_cases:
  assumes "delete_sandbox self e sid = (Inr (), e', l)"
  shows "client self \<noteq> None \<and> (\<exists>x. containers_get e' sid = Inl x \<and> is_docker_NotFound x)"
proof -
  from assms have c: "client self \<noteq> None"
    by (auto simp: delete_sandbox_def split: if_splits)
  show ?thesis
  proof (cases "containers_get e sid")
    case (Inl x)
    with assms c have "is_docker_NotFound x \<and> e' = e"
      by (auto simp: delete_sandbox_def delete_failed_def split: if_splits)
    with Inl c show ?thesis by auto
  next
    case (Inr h)
    then have h: "fst h = sid" and f: "fault e = None" and p: "containers e sid = Some (snd h)"
      by (auto simp: containers_get_def split: option.splits)
    define e1 where "e1 = (if status (snd h) = ''running''
        then e\<lparr>containers := (containers e)(sid \<mapsto> (snd h)\<lparr>status := ''exited''\<rparr>)\<rparr> else e)"
    have s: "(if status (snd h) = ''running'' then container_stop e h else Inr e) = Inr e1"
      using h f p by (simp add: container_stop_def e1_def)
    have "\<exists>c. containers e1 sid = Some c" and f1: "fault e1 = None"
      using p f by (auto simp: e1_def)
    then obtain e2 where r: "container_remove e1 h = Inr e2"
      using h by (auto simp: container_remove_def)
    with assms c Inr s have "e' = e2"
      by (simp add: delete_sandbox_def)
    moreover from r h have "container_remove e1 (sid, snd h) = Inr e2"
      by (metis prod.collapse)
    ultimately have "containers_get e' sid = Inl (Exn DockerNotFound (''No such container: '' @ sid))"
      using container_remove_gone by blast
    with c show ?thesis by (auto simp: is_docker_NotFound_def)
  qed
qed

text \<open>
  C4: on an initialized adapter, when the engine reports the sandbox as not found,
  \<open>delete_sandbox\<close> logs a warning and returns without raising, leaving the engine as it
  was; and after a call that returned, a second call on the same id returns too, with
  that warning.
\<close>

theorem delete_sandbox_idempotent:
  assumes "client self \<noteq> None"
  shows "(\<forall>x. containers_get e sid = Inl x \<and> is_docker_NotFound x \<longrightarrow>
            delete_sandbox self e sid
              = (Inr (), e, [(LogWarning, ''Docker container already deleted: '' @ sid)]))
         \<and> (\<forall>e' l. delete_sandbox self e sid = (Inr (), e', l) \<longrightarrow>
              delete_sandbox self e' sid
                = (Inr (), e', [(LogWarning, ''Docker container already deleted: '' @ sid)]))"
proof (intro conjI allI impI)
  fix x assume "containers_get e sid = Inl x \<and> is_docker_NotFound x"
  with assms show "delete_sandbox self e sid
      = (Inr (), e, [(LogWarning, ''Docker container already deleted: '' @ sid)])"
    by (simp add: delete_sandbox_not_found)
next
  fix e' l assume "delete_sandbox self e sid = (Inr (), e', l)"
  from delete_sandbox_success_cases [OF this]
  obtain x where "containers_get e' sid = Inl x" and "is_docker_NotFound x" by blast
  with assms show "delete_sandbox self e' sid
      = (Inr (), e', [(LogWarning, ''Docker container already deleted: '' @ sid)])"
    by (simp add: delete_sandbox_not_found)
qed

theorem delete_sandbox_idempotent_witness:
  "client adapter0 \<noteq> None
   \<and> fst (delete_sandbox adapter0 (engine_with_status ''running'') ''c1'') = Inr ()
   \<and> snd (snd (delete_sandbox adapter0 (engine_with_status ''running'') ''c1''))
       = [(LogInfo, ''Deleted Docker sandbox: c1'')]
   \<and> delete_sandbox adapter0
        (fst (snd (delete_sandbox adapter0 (engine_with_status ''running'') ''c1''))) ''c1''
       = (Inr (), fst (snd (delete_sandbox adapter0 (engine_with_status ''running'') ''c1'')),
          [(LogWarning, ''Docker container already deleted: c1'')])"
proof -
  have c: "client adapter0 \<noteq> None"
    by (simp add: adapter0_def)
  obtain e' where d: "delete_sandbox adapter0 (engine_with_status ''running'') ''c1''
      = (Inr (), e', [(LogInfo, ''Deleted Docker sandbox: c1'')])"
    by (simp add: delete_sandbox_def containers_get_def container_stop_def container_remove_def
        engine_with_status_def adapter0_def)
  from delete_sandbox_idempotent [OF c, of "engine_with_status ''running''" "''c1''"] d
  have "delete_sandbox adapter0 e' ''c1''
      = (Inr (), e', [(LogWarning, ''Docker container already deleted: c1'')])"
    by simp
  with c d show ?thesis by simp
qed

section \<open>Cached state of a sandbox handle\<close>

text \<open>
  C10: once \<open>get_state\<close> has returned a state for a handle, every later call on that
  handle returns the same value whatever the adapter would answer, leaves the handle
  as it is and makes no query; the \<open>state\<close> property returns that value, and \<open>None\<close> on
  a handle that has not fetched yet.
\<close>

theorem get_state_cached_forever:
  assumes "get_state self w = (Inr s, self', w')"
  shows "(\<forall>w2. get_state self' w2 = (Inr s, self', w2))
         \<and> state_property self' = Some s
         \<and> state_property (compat_init sid md) = None"
  using assms
  by (auto simp: get_state_def state_property_def compat_init_def adapter_get_sandbox_def
      split: option.splits sum.splits prod.splits)

theorem get_state_cached_forever_witness:
  "fst (get_state (compat_init ''c1'' []) (world_of slow_start)) = Inr STOPPED
   \<and> fst (get_state (fst (snd (get_state (compat_init ''c1'' []) (world_of slow_start))))
        ((world_of slow_start)\<lparr>queries := 5\<rparr>)) = Inr STOPPED
   \<and> state_property (fst (snd (get_state (compat_init ''c1'' []) (world_of slow_start))))
       = Some STOPPED"
proof -
  obtain h' w' where g: "get_state (compat_init ''c1'' []) (world_of slow_start) = (Inr STOPPED, h', w')"
    by (simp add: get_state_def compat_init_def world_of_def adapter_get_sandbox_def
        slow_start_def info_in_def)
  from get_state_cached_forever [OF g, of "''c1''" "[]"] g show ?thesis by simp
qed

section \<open>Start-on-demand polling\<close>

lemma poll_none:
  assumes "reports w = (\<lambda>k. Inr (s k))"
    and "\<forall>j<n. state (s (queries w + j)) \<noteq> STARTED"
  shows "poll n w sid info
           = (Inr (if n = 0 then info else s (queries w + n - 1)),
              w\<lparr>queries := queries w + n, slept := slept w + n\<rparr>)"
  using assms
proof (induction n arbitrary: w info)
  case 0
  then show ?case by simp
next
  case (Suc n)
  let ?w' = "w\<lparr>queries := Suc (queries w), slept := slept w + 1\<rparr>"
  have a: "adapter_get_sandbox (sleep 1 w) sid = (Inr (s (queries w)), ?w')"
    using Suc.prems(1) by (simp add: adapter_get_sandbox_def sleep_def)
  have ns: "state (s (queries w)) \<noteq> STARTED"
    using Suc.prems(2) by force
  have r: "reports ?w' = (\<lambda>k. Inr (s k))"
    using Suc.prems(1) by simp
  have q: "\<forall>j<n. state (s (queries ?w' + j)) \<noteq> STARTED"
  proof (intro allI impI)
    fix j assume "j < n"
    then have "Suc j < Suc n" by simp
    with Suc.prems(2) have "state (s (queries w + Suc j)) \<noteq> STARTED" by blast
    then show "state (s (queries ?w' + j)) \<noteq> STARTED" by simp
  qed
  have "poll (Suc n) w sid info = poll n ?w' sid (s (queries w))"
    using a ns by simp
  also have "\<dots> = (Inr (if n = 0 then s (queries w) else s (queries ?w' + n - 1)),
              ?w'\<lparr>queries := queries ?w' + n, slept := slept ?w' + n\<rparr>)"
    by (rule Suc.IH [OF r q])
  finally show ?case by (cases n) simp_all
qed

lemma poll_found:
  assumes "reports w = (\<lambda>k. Inr (s k))"
    and "k < n"
    and "state (s (queries w + k)) = STARTED"
    and "\<forall>j<k. state (s (queries w + j)) \<noteq> STARTED"
  shows "poll n w sid info
           = (Inr (s (queries w + k)),
              w\<lparr>queries := queries w + Suc k, slept := slept w + Suc k\<rparr>)"
  using assms
proof (induction n arbitrary: w info k)
  case 0
  then show ?case by simp
next
  case (Suc n)
  let ?w' = "w\<lparr>queries := Suc (queries w), slept := slept w + 1\<rparr>"
  have a: "adapter_get_sandbox (sleep 1 w) sid = (Inr (s (queries w)), ?w')"
    using Suc.prems(1) by (simp add: adapter_get_sandbox_def sleep_def)
  show ?case
  proof (cases k)
    case 0
    with Suc.prems(3) a show ?thesis by simp
  next
    case (Suc k')
    have ns: "state (s (queries w)) \<noteq> STARTED"
      using Suc.prems(4) Suc by force
    have r: "reports ?w' = (\<lambda>k. Inr (s k))"
      using Suc.prems(1) by simp
    have f: "state (s (queries ?w' + k')) = STARTED"
      using Suc.prems(3) Suc by simp
    have q: "\<forall>j<k'. state (s (queries ?w' + j)) \<noteq> STARTED"
    proof (intro allI impI)
      fix j assume "j < k'"
      then have "Suc j < k" using Suc by simp
      with Suc.prems(4) have "state (s (queries w + Suc j)) \<noteq> STARTED" by blast
      then show "state (s (queries ?w' + j)) \<noteq> STARTED" by simp
    qed
    have lt: "k' < n" using Suc.prems(2) Suc by simp
    have "poll (Suc n) w sid info = poll n ?w' sid (s (queries w))"
      using a ns by simp
    also have "\<dots> = (Inr (s (queries ?w' + k')),
                ?w'\<lparr>queries := queries ?w' + Suc k', slept := slept ?w' + Suc k'\<rparr>)"
      by (rule Suc.IH [OF r lt f q])
    finally show ?thesis using Suc by simp
  qed
qed


text \<open>
  C8: for every sequence of states the adapter reports, \<open>get_or_start_sandbox\<close> fetches the
  state once; when it is neither STOPPED nor ARCHIVED it returns at once. Otherwise it
  issues one start and polls, sleeping one second before each poll, \<open>k\<close> times with
  \<open>1 \<le> k \<le> 30\<close>: no poll before the \<open>k\<close>-th saw STARTED, and either the \<open>k\<close>-th did or
  \<open>k = 30\<close>. In every case it returns a handle and raises nothing.
\<close>

theorem get_or_start_sandbox_bounded:
  assumes "reports w = (\<lambda>k. Inr (s k))" and "start_report w = Inr i" and "queries w = 0"
  shows "if state (s 0) \<in> {STOPPED, ARCHIVED}
         then \<exists>k. 1 \<le> k \<and> k \<le> 30
                \<and> (\<forall>j. 1 \<le> j \<and> j < k \<longrightarrow> state (s j) \<noteq> STARTED)
                \<and> (k < 30 \<longrightarrow> state (s k) = STARTED)
                \<and> get_or_start_sandbox None w sid
                    = (Inr (compat_init sid (metadata (s k))),
                       w\<lparr>queries := Suc k, starts := Suc (starts w), slept := slept w + k\<rparr>)
         else get_or_start_sandbox None w sid
                = (Inr (compat_init sid (metadata (s 0))), w\<lparr>queries := 1\<rparr>)"
proof (cases "state (s 0) \<in> {STOPPED, ARCHIVED}")
  case False
  then show ?thesis
    using assms by (simp add: get_or_start_sandbox_def adapter_get_sandbox_def)
next
  case True
  let ?w2 = "w\<lparr>queries := 1, starts := Suc (starts w)\<rparr>"
  have r: "reports ?w2 = (\<lambda>k. Inr (s k))"
    using assms(1) by simp
  have g: "get_or_start_sandbox None w sid
             = (case poll 30 ?w2 sid (s 0) of
                  (Inl x, w3) \<Rightarrow> (Inl x, w3)
                | (Inr info', w3) \<Rightarrow> (Inr (compat_init sid (metadata info')), w3))"
    using True assms
    by (simp add: get_or_start_sandbox_def adapter_get_sandbox_def adapter_start_sandbox_def)
  show ?thesis
  proof (cases "\<exists>k<30. state (s (Suc k)) = STARTED")
    case False
    then have "\<forall>j<30. state (s (queries ?w2 + j)) \<noteq> STARTED"
      by simp
    from poll_none [OF r this, of sid "s 0"]
    have "poll 30 ?w2 sid (s 0) = (Inr (s 30), ?w2\<lparr>queries := 31, slept := slept w + 30\<rparr>)"
      by simp
    with g have "get_or_start_sandbox None w sid
        = (Inr (compat_init sid (metadata (s 30))),
           w\<lparr>queries := Suc 30, starts := Suc (starts w), slept := slept w + 30\<rparr>)"
      by simp
    moreover have "\<forall>j. 1 \<le> j \<and> j < 30 \<longrightarrow> state (s j) \<noteq> STARTED"
    proof (intro allI impI)
      fix j :: nat assume j: "1 \<le> j \<and> j < 30"
      then obtain j' where "j = Suc j'" by (cases j) auto
      with j False show "state (s j) \<noteq> STARTED" by auto
    qed
    ultimately show ?thesis using True by (intro if_P [THEN iffD2] exI [of _ 30]) auto
  next
    case True2: True
    define k0 where "k0 = (LEAST k. k < 30 \<and> state (s (Suc k)) = STARTED)"
    from True2 have k0: "k0 < 30 \<and> state (s (Suc k0)) = STARTED"
      unfolding k0_def by (rule LeastI_ex)
    have least: "\<And>j. j < k0 \<Longrightarrow> state (s (Suc j)) \<noteq> STARTED"
    proof
      fix j assume "j < k0" and "state (s (Suc j)) = STARTED"
      with k0 have "j < 30 \<and> state (s (Suc j)) = STARTED" by simp
      then have "k0 \<le> j" unfolding k0_def by (rule Least_le)
      with \<open>j < k0\<close> show False by simp
    qed
    have f: "state (s (queries ?w2 + k0)) = STARTED"
      using k0 by simp
    have q: "\<forall>j<k0. state (s (queries ?w2 + j)) \<noteq> STARTED"
      using least by simp
    from poll_found [OF r _ f q, of 30 sid "s 0"] k0
    have "poll 30 ?w2 sid (s 0)
            = (Inr (s (Suc k0)), ?w2\<lparr>queries := Suc (Suc k0), slept := slept w + Suc k0\<rparr>)"
      by simp
    with g have "get_or_start_sandbox None w sid
        = (Inr (compat_init sid (metadata (s (Suc k0)))),
           w\<lparr>queries := Suc (Suc k0), starts := Suc (starts w), slept := slept w + Suc k0\<rparr>)"
      by simp
    moreover have "\<forall>j. 1 \<le> j \<and> j < Suc k0 \<longrightarrow> state (s j) \<noteq> STARTED"
    proof (intro allI impI)
      fix j :: nat assume j: "1 \<le> j \<and> j < Suc k0"
      then obtain j' where "j = Suc j'" by (cases j) auto
      with j least show "state (s j) \<noteq> STARTED" by auto
    qed
    ultimately show ?thesis using True k0 by (intro if_P [THEN iffD2] exI [of _ "Suc k0"]) auto
  qed
qed

theorem get_or_start_sandbox_bounded_witness:
  "get_or_start_sandbox None (world_of slow_start) ''c1''
     = (Inr (compat_init ''c1'' []),
        (world_of slow_start)\<lparr>queries := 3, starts := 1, slept := 2\<rparr>)"
proof -
  have r: "reports (world_of slow_start) = (\<lambda>k. Inr (slow_start k))"
    and st: "start_report (world_of slow_start) = Inr (slow_start 0)"
    and q: "queries (world_of slow_start) = 0"
    by (simp_all add: world_of_def)
  have s0: "state (slow_start 0) \<in> {STOPPED, ARCHIVED}"
    by (simp add: slow_start_def info_in_def)
  from get_or_start_sandbox_bounded [OF r st q, of "''c1''"] s0
  obtain k where k: "1 \<le> k" "k \<le> 30"
    and before: "\<forall>j. 1 \<le> j \<and> j < k \<longrightarrow> state (slow_start j) \<noteq> STARTED"
    and at: "k < 30 \<longrightarrow> state (slow_start k) = STARTED"
    and res: "get_or_start_sandbox None (world_of slow_start) ''c1''
                = (Inr (compat_init ''c1'' (metadata (slow_start k))),
                   (world_of slow_start)\<lparr>queries := Suc k, starts := Suc (starts (world_of slow_start)),
                      slept := slept (world_of slow_start) + k\<rparr>)"
    by auto
  have "k \<noteq> 1"
    using at by (auto simp: slow_start_def info_in_def)
  moreover have "\<not> 2 < k"
  proof
    assume "2 < k"
    with before have "state (slow_start 2) \<noteq> STARTED" by simp
    then show False by (simp add: slow_start_def info_in_def)
  qed
  ultimately have "k = 2" using k by simp
  with res show ?thesis
    by (simp add: slow_start_def info_in_def world_of_def)
qed
section \<open>Resource usage\<close>

lemma rne_nonneg:
  assumes "0 \<le> y"
  shows "0 \<le> rne y"
proof -
  have "0 \<le> \<lfloor>y\<rfloor>" using assms by simp
  then show ?thesis by (simp add: rne_def Let_def)
qed

lemma rne_le_int:
  assumes "y \<le> of_int N"
  shows "rne y \<le> N"
proof -
  have f: "\<lfloor>y\<rfloor> \<le> N"
    using assms by (simp add: floor_le_iff)
  show ?thesis
  proof (cases "y = of_int \<lfloor>y\<rfloor>")
    case True
    then have "y - of_int \<lfloor>y\<rfloor> = 0" by simp
    then show ?thesis using f by (simp add: rne_def Let_def)
  next
    case False
    have "of_int \<lfloor>y\<rfloor> \<le> y" by simp
    with False have "of_int \<lfloor>y\<rfloor> < y" by (auto simp: less_le)
    with assms have "(of_int \<lfloor>y\<rfloor> :: rat) < of_int N" by simp
    then have "\<lfloor>y\<rfloor> < N" by simp
    then show ?thesis by (simp add: rne_def Let_def)
  qed
qed

lemma expo_le:
  assumes "0 < x"
  shows "2 powi (expo x) \<le> x"
proof -
  obtain n d where q: "quotient_of x = (n, d)" by (cases "quotient_of x")
  have d: "0 < d" using q by (rule quotient_of_denom_pos)
  have x: "x = of_int n / of_int d" using q by (rule quotient_of_div)
  have n: "0 < n"
    using assms d x by (simp add: zero_less_divide_iff)
  define nl where "nl = floorlog 2 (nat n)"
  define dl where "dl = floorlog 2 (nat d)"
  have nb: "2 ^ (nl - 1) \<le> nat n"
    using floorlog_bounds [of "nat n" 2] n by (simp add: nl_def)
  have db: "nat d < 2 ^ dl"
    using floorlog_bounds [of "nat d" 2] d by (simp add: dl_def)
  have nl1: "1 \<le> nl"
    using n by (simp add: nl_def floorlog_def)
  show ?thesis
  proof (cases "2 powi (int nl - int dl) \<le> x")
    case True
    then show ?thesis by (simp add: expo_def q Let_def nl_def dl_def)
  next
    case False
    then have e: "expo x = int nl - int dl - 1"
      by (simp add: expo_def q Let_def nl_def dl_def)
    have eq: "int nl - int dl - 1 = int (nl - 1) - int dl"
      using nl1 by simp
    have "(2::rat) powi (int nl - int dl - 1) = 2 powi (int (nl - 1) - int dl)"
      by (simp only: eq)
    also have "\<dots> = 2 powi int (nl - 1) / 2 powi int dl"
      by (rule power_int_diff) simp
    also have "\<dots> = 2 ^ (nl - 1) / 2 ^ dl"
      by (simp only: power_int_of_nat)
    also have "\<dots> \<le> of_int n / 2 ^ dl"
    proof -
      have "(2::rat) ^ (nl - 1) \<le> of_nat (nat n)"
        using nb by (metis of_nat_le_iff of_nat_numeral of_nat_power)
      then have "(2::rat) ^ (nl - 1) \<le> of_int n"
        using n by simp
      then show ?thesis by (simp add: divide_right_mono)
    qed
    also have "\<dots> \<le> of_int n / of_int d"
    proof -
      have "(of_nat (nat d) :: rat) < 2 ^ dl"
        using db by (metis of_nat_less_iff of_nat_numeral of_nat_power)
      then have "(of_int d :: rat) \<le> 2 ^ dl"
        using d by simp
      then show ?thesis
        using n d by (simp add: frac_le)
    qed
    finally have f: "(2::rat) powi (int nl - int dl - 1) \<le> of_int n / of_int d" .
    have "2 powi expo x = (2::rat) powi (int nl - int dl - 1)"
      by (simp only: e)
    also note f
    also have "of_int n / of_int d = x"
      by (rule x [symmetric])
    finally show ?thesis .
  qed
qed

lemma to_double_nonneg:
  assumes "0 \<le> x"
  shows "0 \<le> to_double x"
proof (cases "x = 0")
  case True
  then show ?thesis by (simp add: to_double_def)
next
  case False
  with assms have p: "0 < x" by simp
  have u: "(0::rat) < 2 powi (expo x - 52)" by simp
  have "0 \<le> x / 2 powi (expo x - 52)"
    using p u by simp
  then have "0 \<le> rne (x / 2 powi (expo x - 52))"
    by (rule rne_nonneg)
  then show ?thesis
    using p by (simp add: to_double_def Let_def)
qed

lemma to_double_le_int:
  assumes "0 \<le> x" and "x \<le> of_int C" and "C < 2 ^ 52"
  shows "to_double x \<le> of_int C"
proof (cases "x = 0")
  case True
  with assms show ?thesis by (simp add: to_double_def)
next
  case False
  with assms have p: "0 < x" by simp
  have "2 powi (expo x) \<le> x" using p by (rule expo_le)
  also have "x \<le> of_int C" by fact
  also have "(of_int C :: rat) < 2 powi 52"
    using assms(3) by (metis of_int_less_iff of_int_numeral of_int_power power_int_numeral)
  finally have "(2::rat) powi (expo x) < 2 powi 52" .
  then have lt: "expo x < 52"
    by (rule power_int_le_imp_less_exp [rotated]) simp_all
  define k where "k = nat (52 - expo x)"
  have ku: "(2::rat) powi (expo x - 52) = 1 / 2 ^ k"
  proof -
    have "expo x - 52 = - int k" using lt by (simp add: k_def)
    then show ?thesis by (simp add: power_int_minus_divide)
  qed
  have "x / (2 powi (expo x - 52)) = x * 2 ^ k"
    by (simp add: ku)
  also have "\<dots> \<le> of_int C * 2 ^ k"
    using assms(2) by simp
  also have "\<dots> = of_int (C * 2 ^ k)"
    by simp
  finally have "rne (x / (2 powi (expo x - 52))) \<le> C * 2 ^ k"
    by (rule rne_le_int)
  then have "(of_int (rne (x / (2 powi (expo x - 52)))) :: rat) \<le> of_int (C * 2 ^ k)"
    by (simp only: of_int_le_iff)
  then have "of_int (rne (x / (2 powi (expo x - 52)))) * (1 / 2 ^ k) \<le> (of_int C :: rat)"
    by (simp add: field_simps)
  then show ?thesis
    using p by (simp add: to_double_def Let_def ku)
qed

lemma float_percent_bounds:
  fixes a b :: int
  assumes "0 \<le> a" and "a \<le> b" and "0 < b"
  shows "0 \<le> float_round (float_mul (float_div a b) 100) 2
         \<and> float_round (float_mul (float_div a b) 100) 2 \<le> 100"
proof -
  define q where "q = float_div a b"
  have "0 \<le> (of_int a :: rat) / of_int b" and "(of_int a :: rat) / of_int b \<le> of_int 1"
    using assms by (simp_all add: divide_le_eq_1)
  then have q: "0 \<le> q" "q \<le> 1"
    using to_double_nonneg to_double_le_int [of "of_int a / of_int b" 1]
    by (simp_all add: q_def float_div_def)
  define m where "m = float_mul q 100"
  have "0 \<le> q * 100" and "q * 100 \<le> of_int 100"
    using q by simp_all
  then have m: "0 \<le> m" "m \<le> 100"
    using to_double_nonneg to_double_le_int [of "q * 100" 100]
    by (simp_all add: m_def float_mul_def)
  define y :: rat where "y = of_int (rne (m * 10 ^ 2)) / 10 ^ 2"
  have "0 \<le> rne (m * 10 ^ 2)"
    using m by (intro rne_nonneg) simp
  moreover have "rne (m * 10 ^ 2) \<le> 10000"
    using m by (intro rne_le_int) simp
  ultimately have "0 \<le> y" and "y \<le> of_int 100"
    by (simp_all add: y_def)
  then have "0 \<le> to_double y" and "to_double y \<le> 100"
    using to_double_nonneg to_double_le_int [of y 100] by simp_all
  then show ?thesis
    by (simp add: float_round_def y_def m_def q_def)
qed

lemma float_round_zero: "float_round 0 2 = 0"
  by (simp add: float_round_def rne_def to_double_def)

lemma rne_of_int: "rne (of_int M) = M"
  by (simp add: rne_def)

lemma to_double_dyadic:
  assumes "0 < C" and "C < 2 ^ 53"
  shows "to_double (of_int C * 2 powi j) = of_int C * 2 powi j"
proof -
  define x :: rat where "x = of_int C * 2 powi j"
  have p: "0 < x"
    using assms(1) by (simp add: x_def)
  have "(of_int C :: rat) < 2 powi 53"
    using assms(2) by (metis of_int_less_iff of_int_numeral of_int_power power_int_numeral)
  then have "x < 2 powi 53 * 2 powi j"
    by (simp add: x_def)
  also have "\<dots> = 2 powi (53 + j)"
    by (simp add: power_int_add)
  finally have ub: "x < 2 powi (53 + j)" .
  have lb: "2 powi expo x \<le> x"
    using p by (rule expo_le)
  have lt: "expo x < 53 + j"
  proof (rule ccontr)
    assume "\<not> expo x < 53 + j"
    then have "53 + j \<le> expo x" by simp
    then have "(2::rat) powi (53 + j) \<le> 2 powi expo x"
      by (intro power_int_increasing) simp_all
    with lb ub show False by simp
  qed
  define k where "k = nat (52 + j - expo x)"
  have k: "int k = 52 + j - expo x"
    using lt by (simp add: k_def)
  have "x / 2 powi (expo x - 52) = of_int C * (2 powi j / 2 powi (expo x - 52))"
    by (simp add: x_def)
  also have "2 powi j / (2::rat) powi (expo x - 52) = 2 powi (j - (expo x - 52))"
    by (rule power_int_diff [symmetric]) simp
  also have "j - (expo x - 52) = int k"
    using k by simp
  finally have m: "x / 2 powi (expo x - 52) = of_int (C * 2 ^ k)"
    by simp
  have "to_double x = of_int (C * 2 ^ k) * 2 powi (expo x - 52)"
    using p by (simp add: to_double_def Let_def m rne_of_int del: of_int_mult of_int_power)
  also have "\<dots> = of_int C * (2 powi int k * 2 powi (expo x - 52))"
    by simp
  also have "2 powi int k * (2::rat) powi (expo x - 52) = 2 powi (int k + (expo x - 52))"
    by (rule power_int_add [symmetric]) simp
  also have "int k + (expo x - 52) = j"
    using k by simp
  finally show ?thesis
    by (simp add: x_def)
qed

lemma to_double_int:
  assumes "0 < C" and "C < 2 ^ 53"
  shows "to_double (of_int C) = of_int C"
  using to_double_dyadic [OF assms, of 0] by simp

text \<open>
  C7 (as stated): the percentages returned lie within 0 and 100. The ratio is not
  clamped: a sample whose CPU delta is twice the system delta yields 200.
\<close>

theorem get_resource_usage_unbounded_counterexample:
  "map_sum id (map_option cpu_percent)
     (get_resource_usage sample_busy adapter0 (engine_with_status ''running'') ''c1'')
     = Inr (Some 200)
   \<and> \<not> (200::rat) \<le> 100"
proof -
  have 1: "float_div 200 100 = 2"
    using to_double_int [of 2] by (simp add: float_div_def)
  have 2: "float_mul 2 100 = 200"
    using to_double_int [of 200] by (simp add: float_mul_def)
  have 3: "float_round 200 2 = 200"
    using to_double_int [of 200] rne_of_int [of 20000] by (simp add: float_round_def)
  show ?thesis
    by (simp add: get_resource_usage_def containers_get_def engine_with_status_def adapter0_def
        sample_busy_def stats_busy_def Let_def 1 2 3)
qed

text \<open>
  C7 (amended): on an initialized adapter \<open>get_resource_usage\<close> never raises. A failed
  lookup, a failed stats request or a missing counter gives the empty result. When the
  lookup, the stats request and all six counters are there, it returns the rounded
  ratios, unclamped: \<open>cpu_percent\<close> lies within 0 and 100 whenever the CPU delta lies
  between 0 and the system delta, and \<open>memory_percent\<close> whenever the usage is at most
  the limit.
\<close>

theorem get_resource_usage_bounds:
  assumes "client self \<noteq> None"
    and "res = get_resource_usage sample self e sid"
  shows "(\<exists>r. res = Inr r)
         \<and> (\<forall>x. containers_get e sid = Inl x \<longrightarrow> res = Inr None)
         \<and> (\<forall>h x. containers_get e sid = Inr h \<and> sample h = Inl x \<longrightarrow> res = Inr None)
         \<and> (\<forall>h st. containers_get e sid = Inr h \<and> sample h = Inr st
                \<and> (cpu_total_usage st = None \<or> precpu_total_usage st = None
                     \<or> system_cpu_usage st = None \<or> presystem_cpu_usage st = None
                     \<or> memory_usage st = None \<or> memory_limit_stat st = None) \<longrightarrow>
              res = Inr None)
         \<and> (\<forall>h st ct pt sc ps mu ml.
                containers_get e sid = Inr h \<and> sample h = Inr st
                \<and> cpu_total_usage st = Some ct \<and> precpu_total_usage st = Some pt
                \<and> system_cpu_usage st = Some sc \<and> presystem_cpu_usage st = Some ps
                \<and> memory_usage st = Some mu \<and> memory_limit_stat st = Some ml \<longrightarrow>
              (\<exists>u. res = Inr (Some u)
                 \<and> cpu_percent u
                     = float_round (if uint sc - uint ps > 0
                                    then float_mul (float_div (uint ct - uint pt)
                                                      (uint sc - uint ps)) 100
                                    else 0) 2
                 \<and> memory_percent u
                     = float_round (if uint ml > 0
                                    then float_mul (float_div (uint mu) (uint ml)) 100
                                    else 0) 2
                 \<and> memory_bytes u = uint mu \<and> memory_limit_bytes u = uint ml
                 \<and> (0 \<le> uint ct - uint pt \<and> uint ct - uint pt \<le> uint sc - uint ps \<longrightarrow>
                       0 \<le> cpu_percent u \<and> cpu_percent u \<le> 100)
                 \<and> (uint mu \<le> uint ml \<longrightarrow>
                       0 \<le> memory_percent u \<and> memory_percent u \<le> 100)))"
proof (intro conjI allI impI)
  show "\<exists>r. res = Inr r"
    using assms
    by (auto simp: get_resource_usage_def Let_def split: sum.splits option.splits)
next
  fix x assume "containers_get e sid = Inl x"
  then show "res = Inr None"
    using assms by (simp add: get_resource_usage_def)
next
  fix h x assume "containers_get e sid = Inr h \<and> sample h = Inl x"
  then show "res = Inr None"
    using assms by (simp add: get_resource_usage_def)
next
  fix h st assume "containers_get e sid = Inr h \<and> sample h = Inr st
                \<and> (cpu_total_usage st = None \<or> precpu_total_usage st = None
                     \<or> system_cpu_usage st = None \<or> presystem_cpu_usage st = None
                     \<or> memory_usage st = None \<or> memory_limit_stat st = None)"
  then show "res = Inr None"
    using assms by (auto simp: get_resource_usage_def split: option.splits)
next
  fix h st ct pt sc ps mu ml
  assume a: "containers_get e sid = Inr h \<and> sample h = Inr st
                \<and> cpu_total_usage st = Some ct \<and> precpu_total_usage st = Some pt
                \<and> system_cpu_usage st = Some sc \<and> presystem_cpu_usage st = Some ps
                \<and> memory_usage st = Some mu \<and> memory_limit_stat st = Some ml"
  define cd where "cd = uint ct - uint pt"
  define sd where "sd = uint sc - uint ps"
  define cpu where "cpu = float_round (if sd > 0 then float_mul (float_div cd sd) 100 else 0) 2"
  define mem where
    "mem = float_round (if uint ml > 0 then float_mul (float_div (uint mu) (uint ml)) 100 else 0) 2"
  define u where
    "u = \<lparr>cpu_percent = cpu, memory_bytes = uint mu, memory_limit_bytes = uint ml,
          memory_percent = mem\<rparr>"
  have r: "res = Inr (Some u)"
    using assms a
    by (simp add: get_resource_usage_def Let_def u_def cpu_def mem_def cd_def sd_def)
  have cb: "0 \<le> cd \<and> cd \<le> sd \<longrightarrow> 0 \<le> cpu \<and> cpu \<le> 100"
  proof
    assume b: "0 \<le> cd \<and> cd \<le> sd"
    show "0 \<le> cpu \<and> cpu \<le> 100"
    proof (cases "sd > 0")
      case True
      with b float_percent_bounds [of cd sd] show ?thesis
        by (simp add: cpu_def)
    next
      case False
      then show ?thesis by (simp add: cpu_def float_round_zero)
    qed
  qed
  have mb: "uint mu \<le> uint ml \<longrightarrow> 0 \<le> mem \<and> mem \<le> 100"
  proof
    assume b: "uint mu \<le> uint ml"
    show "0 \<le> mem \<and> mem \<le> 100"
    proof (cases "uint ml > 0")
      case True
      with b float_percent_bounds [of "uint mu" "uint ml"] show ?thesis
        by (simp add: mem_def)
    next
      case False
      then show ?thesis by (simp add: mem_def float_round_zero)
    qed
  qed
  have "res = Inr (Some u)
        \<and> cpu_percent u = cpu \<and> memory_percent u = mem
        \<and> memory_bytes u = uint mu \<and> memory_limit_bytes u = uint ml
        \<and> (0 \<le> cd \<and> cd \<le> sd \<longrightarrow> 0 \<le> cpu_percent u \<and> cpu_percent u \<le> 100)
        \<and> (uint mu \<le> uint ml \<longrightarrow> 0 \<le> memory_percent u \<and> memory_percent u \<le> 100)"
    using r cb mb by (simp add: u_def)
  then show "\<exists>u. res = Inr (Some u)
                 \<and> cpu_percent u
                     = float_round (if uint sc - uint ps > 0
                                    then float_mul (float_div (uint ct - uint pt)
                                                      (uint sc - uint ps)) 100
                                    else 0) 2
                 \<and> memory_percent u
                     = float_round (if uint ml > 0
                                    then float_mul (float_div (uint mu) (uint ml)) 100
                                    else 0) 2
                 \<and> memory_bytes u = uint mu \<and> memory_limit_bytes u = uint ml
                 \<and> (0 \<le> uint ct - uint pt \<and> uint ct - uint pt \<le> uint sc - uint ps \<longrightarrow>
                       0 \<le> cpu_percent u \<and> cpu_percent u \<le> 100)
                 \<and> (uint mu \<le> uint ml \<longrightarrow>
                       0 \<le> memory_percent u \<and> memory_percent u \<le> 100)"
    unfolding cpu_def mem_def cd_def sd_def by (intro exI [of _ u]) blast
qed

theorem get_resource_usage_bounds_witness:
  "client adapter0 \<noteq> None
   \<and> get_resource_usage sample_calm adapter0 (engine_with_status ''running'') ''c1''
       = Inr (Some \<lparr>cpu_percent = 25, memory_bytes = 1, memory_limit_bytes = 2,
                     memory_percent = 50\<rparr>)
   \<and> get_resource_usage sample_calm adapter0 (engine_with_status ''running'') ''gone''
       = Inr None"
proof -
  have c: "client adapter0 \<noteq> None"
    by (simp add: adapter0_def)
  have g: "containers_get (engine_with_status ''running'') ''gone''
             = Inl (Exn DockerNotFound ''No such container: gone'')"
    by (simp add: containers_get_def engine_with_status_def)
  have "\<forall>x. containers_get (engine_with_status ''running'') ''gone'' = Inl x \<longrightarrow>
          get_resource_usage sample_calm adapter0 (engine_with_status ''running'') ''gone''
            = Inr None"
    by (rule conjunct1 [OF conjunct2 [OF get_resource_usage_bounds [OF c refl]]])
  with g have n: "get_resource_usage sample_calm adapter0 (engine_with_status ''running'') ''gone''
             = Inr None"
    by simp
  have 1: "float_div 50 200 = 1 / 4"
    using to_double_dyadic [of 1 "- 2"] by (simp add: float_div_def power_int_minus_divide)
  have 2: "float_mul (1 / 4) 100 = 25"
    using to_double_int [of 25] by (simp add: float_mul_def)
  have 3: "float_round 25 2 = 25"
    using to_double_int [of 25] rne_of_int [of 2500] by (simp add: float_round_def)
  have 4: "float_div 1 2 = 1 / 2"
    using to_double_dyadic [of 1 "- 1"] by (simp add: float_div_def power_int_minus_divide)
  have 5: "float_mul (1 / 2) 100 = 50"
    using to_double_int [of 50] by (simp add: float_mul_def)
  have 6: "float_round 50 2 = 50"
    using to_double_int [of 50] rne_of_int [of 5000] by (simp add: float_round_def)
  have v: "get_resource_usage sample_calm adapter0 (engine_with_status ''running'') ''c1''
       = Inr (Some \<lparr>cpu_percent = 25, memory_bytes = 1, memory_limit_bytes = 2,
                     memory_percent = 50\<rparr>)"
    by (simp add: get_resource_usage_def containers_get_def engine_with_status_def adapter0_def
        sample_calm_def stats_calm_def Let_def 1 2 3 4 5 6)
  from c v n show ?thesis by simp
qed

section \<open>Metadata and labels\<close>










section \<open>File transfer\<close>

lemma split_slash_append:
  "split_slash (xs @ CHR ''/'' # ys) = split_slash xs @ split_slash ys"
proof (induction xs)
  case Nil
  then show ?case by simp
next
  case (Cons x xs)
  have ne: "split_slash xs \<noteq> []"
    by (cases xs) (auto split: list.splits)
  show ?case
    using Cons.IH ne by (cases "split_slash xs") (auto split: list.splits)
qed

lemma split_slash_plain:
  assumes "CHR ''/'' \<notin> set b"
  shows "split_slash b = [b]"
  using assms by (induction b) auto

lemma resolve_slash: "resolve (s @ ''/'') = resolve s"
  using split_slash_append [of s "[]"] by (simp add: resolve_def walk_def)

lemma resolve_slashes: "resolve (s @ replicate n CHR ''/'') = resolve s"
proof (induction n)
  case 0
  then show ?case by simp
next
  case (Suc n)
  have "s @ replicate (Suc n) CHR ''/'' = (s @ replicate n CHR ''/'') @ ''/''"
    by (simp add: replicate_append_same)
  then show ?case
    using Suc.IH resolve_slash [of "s @ replicate n CHR ''/''"] by simp
qed

lemma rstrip_slash_decomp:
  "\<exists>n. s = rstrip_slash s @ replicate n CHR ''/''"
proof -
  let ?P = "\<lambda>c. c = CHR ''/''"
  have "rev s = takeWhile ?P (rev s) @ dropWhile ?P (rev s)"
    by simp
  then have "s = rev (dropWhile ?P (rev s)) @ rev (takeWhile ?P (rev s))"
    by (metis rev_append rev_rev_ident)
  moreover have "takeWhile ?P (rev s) = replicate (length (takeWhile ?P (rev s))) CHR ''/''"
    by (rule replicate_eqI) (auto dest: set_takeWhileD)
  ultimately show ?thesis
    by (metis rev_replicate rstrip_slash_def)
qed

lemma resolve_rstrip: "resolve (rstrip_slash s) = resolve s"
proof -
  obtain n where "s = rstrip_slash s @ replicate n CHR ''/''"
    using rstrip_slash_decomp by blast
  then show ?thesis
    using resolve_slashes [of "rstrip_slash s" n] by simp
qed

lemma resolve_dirname_basename:
  assumes "basename p \<noteq> []" and "basename p \<noteq> ''.''" and "basename p \<noteq> ''..''"
  shows "resolve p = resolve (if dirname p = [] then ''/'' else dirname p) @ [basename p]"
proof -
  let ?Q = "\<lambda>c. c \<noteq> CHR ''/''"
  define h where "h = rev (dropWhile ?Q (rev p))"
  define b where "b = basename p"
  have "rev p = takeWhile ?Q (rev p) @ dropWhile ?Q (rev p)"
    by simp
  then have p: "p = h @ b"
    unfolding h_def b_def basename_def by (metis rev_append rev_rev_ident)
  have nb: "CHR ''/'' \<notin> set b"
    unfolding b_def basename_def by (auto dest: set_takeWhileD)
  have wb: "\<And>acc. walk acc b = acc @ [b]"
    using assms by (simp add: walk_def b_def)
  show ?thesis
  proof (cases "h = []")
    case True
    then have d: "dirname p = []"
      by (simp add: dirname_def h_def Let_def)
    have "resolve p = [b]"
      using True p nb wb by (simp add: resolve_def split_slash_plain)
    moreover have "resolve ''/'' = []"
      by (simp add: resolve_def walk_def)
    ultimately show ?thesis
      using d by (simp add: b_def)
  next
    case False
    then have dne: "dropWhile ?Q (rev p) \<noteq> []"
      by (simp add: h_def)
    then have "hd (dropWhile ?Q (rev p)) = CHR ''/''"
      using hd_dropWhile [of ?Q "rev p"] by simp
    then obtain rest where "dropWhile ?Q (rev p) = CHR ''/'' # rest"
      using dne by (cases "dropWhile ?Q (rev p)") auto
    then have h: "h = rev rest @ ''/''"
      by (simp add: h_def)
    have "split_slash p = split_slash (rev rest) @ [b]"
      using split_slash_append [of "rev rest" b] nb
      by (simp add: p h split_slash_plain)
    then have rp: "resolve p = resolve (rev rest) @ [b]"
      by (simp add: resolve_def wb)
    have rh: "resolve h = resolve (rev rest)"
      by (simp add: h resolve_slash)
    have dn: "dirname p \<noteq> [] \<and> resolve (dirname p) = resolve h"
    proof (cases "h = replicate (length h) CHR ''/''")
      case True
      then have "dirname p = h"
        using False by (simp add: dirname_def h_def Let_def)
      with False show ?thesis by simp
    next
      case nall: False
      then have d: "dirname p = rstrip_slash h"
        using False by (simp add: dirname_def h_def Let_def)
      obtain n where n: "h = rstrip_slash h @ replicate n CHR ''/''"
        using rstrip_slash_decomp by blast
      have "rstrip_slash h \<noteq> []"
      proof
        assume "rstrip_slash h = []"
        with n have "h = replicate n CHR ''/''" by simp
        then have "h = replicate (length h) CHR ''/''" by simp
        with nall show False by simp
      qed
      then show ?thesis
        by (simp add: d resolve_rstrip)
    qed
    show ?thesis
      using dn rp rh by (simp add: b_def)
  qed
qed

lemma basename_no_slash: "CHR ''/'' \<notin> set (basename p)"
  unfolding basename_def by (auto dest: set_takeWhileD)

lemma read_after_write:
  assumes "write_file now self e sid path content mode = (Inr (), e')"
    and "basename path \<noteq> []" and "basename path \<noteq> ''.''" and "basename path \<noteq> ''..''"
    and "CHR 0x00 \<notin> set (basename path)"
  shows "read_file self e' sid path = Inr content"
proof -
  from assms(1) have c: "client self \<noteq> None"
    by (auto simp: write_file_def split: if_splits)
  define dest where "dest = (if dirname path = [] then ''/'' else dirname path)"
  define ent where
    "ent = \<lparr>name = basename path, tsize = length content, tmode = mode mod 4096, mtime = now,
            isreg = True, data = content\<rparr>"
  have tw: "takeWhile (\<lambda>c. c \<noteq> CHR 0x00) (basename path) = basename path"
    using assms(5) by (auto simp: takeWhile_eq_all_conv)
  have a: "addfile [] (TarInfo (basename path) (length content) mode now) content = Inr [ent]"
    by (simp add: addfile_def TarInfo_def ent_def tw)
  from assms(1) c obtain h where g: "containers_get e sid = Inr h"
    by (auto simp: write_file_def split: sum.splits)
  then obtain ct where h: "h = (sid, ct)" and f: "fault e = None"
    and cs: "containers e sid = Some ct"
    by (auto simp: containers_get_def split: option.splits)
  from assms(1) c g a have pa: "put_archive e h dest [ent] = Inr e'"
    by (auto simp: write_file_def dest_def Let_def split: sum.splits)
  then obtain t where u: "unpack (files ct) (resolve dest) [ent] = Inr t"
    and e': "e' = e\<lparr>containers := (containers e)(sid \<mapsto> ct\<lparr>files := t\<rparr>)\<rparr>"
    using h f cs by (auto simp: put_archive_def split: if_splits sum.splits)
  from u assms(2,3) have
    t: "t = (remove_all (files ct) (resolve dest @ [basename path]))
              (resolve dest @ [basename path] \<mapsto> File (mode mod 4096) now content)"
    by (auto simp: ent_def split: if_splits)
  have r: "resolve path = resolve dest @ [basename path]"
    unfolding dest_def by (rule resolve_dirname_basename [OF assms(2) assms(3) assms(4)])
  have g': "containers_get e' sid = Inr (sid, ct\<lparr>files := t\<rparr>)"
    by (simp add: containers_get_def e' f)
  have "get_archive e' (sid, ct\<lparr>files := t\<rparr>) path
          = Inr [\<lparr>name = last (resolve path), tsize = length content, tmode = mode mod 4096,
                  mtime = now, isreg = True, data = content\<rparr>]"
    by (simp add: get_archive_def e' f r t)
  then show ?thesis
    using c g' by (simp add: read_file_def extractfile_def)
qed

lemma write_file_returns:
  assumes "client self \<noteq> None" and "containers_get e sid = Inr h"
    and "files (snd h) (resolve (if dirname path = [] then ''/'' else dirname path)) = Some Dir"
    and "basename path \<noteq> []" and "basename path \<noteq> ''.''" and "basename path \<noteq> ''..''"
    and "CHR 0x00 \<notin> set (basename path)"
  shows "\<exists>e'. write_file now self e sid path content mode = (Inr (), e')"
proof -
  define dest where "dest = (if dirname path = [] then ''/'' else dirname path)"
  define ent where
    "ent = \<lparr>name = basename path, tsize = length content, tmode = mode mod 4096, mtime = now,
            isreg = True, data = content\<rparr>"
  have tw: "takeWhile (\<lambda>c. c \<noteq> CHR 0x00) (basename path) = basename path"
    using assms(7) by (auto simp: takeWhile_eq_all_conv)
  have a: "addfile [] (TarInfo (basename path) (length content) mode now) content = Inr [ent]"
    by (simp add: addfile_def TarInfo_def ent_def tw)
  from assms(2) obtain ct where h: "h = (sid, ct)" and f: "fault e = None"
    and cs: "containers e sid = Some ct"
    by (auto simp: containers_get_def split: option.splits)
  have d: "files ct (resolve dest) = Some Dir"
    using assms(3) h by (simp add: dest_def)
  obtain t where u: "unpack (files ct) (resolve dest) [ent] = Inr t"
    using assms(4,5,6) basename_no_slash [of path] by (simp add: ent_def)
  have "put_archive e h dest [ent] = Inr (e\<lparr>containers := (containers e)(sid \<mapsto> ct\<lparr>files := t\<rparr>)\<rparr>)"
    unfolding put_archive_def using h f cs d u by simp
  then show ?thesis
    using assms(1,2) a by (simp add: write_file_def dest_def Let_def)
qed

text \<open>
  C2: for every byte string, also one that is not UTF-8, and every path whose last
  component is a file name (not empty, not \<open>.\<close> or \<open>..\<close>, without a NUL): whenever
  \<open>write_file\<close> has returned, \<open>read_file\<close> of the same path in the same sandbox returns
  exactly the bytes written; and \<open>write_file\<close> does return when the client is
  initialized, the container is found and the directory of the path exists in it. The
  write packs the bytes into one archive entry and streams it into the directory of
  the path; the read fetches the archive of the path and returns the content of its
  first entry.
\<close>

theorem write_then_read_round_trip:
  assumes "basename path \<noteq> []" and "basename path \<noteq> ''.''" and "basename path \<noteq> ''..''"
    and "CHR 0x00 \<notin> set (basename path)"
  shows "(\<forall>e'. write_file now self e sid path content mode = (Inr (), e')
            \<longrightarrow> read_file self e' sid path = Inr content)
       \<and> (client self \<noteq> None \<and> containers_get e sid = Inr h
              \<and> files (snd h) (resolve (if dirname path = [] then ''/'' else dirname path))
                    = Some Dir
            \<longrightarrow> (\<exists>e'. write_file now self e sid path content mode = (Inr (), e')
                      \<and> read_file self e' sid path = Inr content))"
proof (intro conjI allI impI)
  fix e'
  assume "write_file now self e sid path content mode = (Inr (), e')"
  then show "read_file self e' sid path = Inr content"
    using assms by (rule read_after_write)
next
  assume p: "client self \<noteq> None \<and> containers_get e sid = Inr h
      \<and> files (snd h) (resolve (if dirname path = [] then ''/'' else dirname path)) = Some Dir"
  then obtain e' where w: "write_file now self e sid path content mode = (Inr (), e')"
    using write_file_returns [of self e sid h path now content mode] assms by blast
  then have "read_file self e' sid path = Inr content"
    using assms by (rule read_after_write)
  with w show "\<exists>e'. write_file now self e sid path content mode = (Inr (), e')
      \<and> read_file self e' sid path = Inr content"
    by blast
qed

theorem write_then_read_round_trip_witness:
  "client adapter0 \<noteq> None
   \<and> basename ''/workspace/test.bin'' = ''test.bin''
   \<and> (\<exists>e'. write_file 1700000000 adapter0 (engine_with_status ''running'') ''c1''
               ''/workspace/test.bin'' [0xFF, 0xFE, 0x00, 0x68] 420 = (Inr (), e')
             \<and> read_file adapter0 e' ''c1'' ''/workspace/test.bin''
                 = Inr [0xFF, 0xFE, 0x00, 0x68])"
proof -
  have b: "basename ''/workspace/test.bin'' = ''test.bin''"
    by (simp add: basename_def)
  have d: "dirname ''/workspace/test.bin'' = ''/workspace''"
    by (simp add: dirname_def rstrip_slash_def Let_def)
  have rs: "resolve ''/workspace'' = [''workspace'']"
    by (simp add: resolve_def walk_def)
  have c: "client adapter0 \<noteq> None"
    by (simp add: adapter0_def)
  obtain h where g: "containers_get (engine_with_status ''running'') ''c1'' = Inr h"
    and fh: "files (snd h) [''workspace''] = Some Dir"
    by (simp add: containers_get_def engine_with_status_def root_fs_def)
  have "\<exists>e'. write_file 1700000000 adapter0 (engine_with_status ''running'') ''c1''
               ''/workspace/test.bin'' [0xFF, 0xFE, 0x00, 0x68] 420 = (Inr (), e')
             \<and> read_file adapter0 e' ''c1'' ''/workspace/test.bin''
                 = Inr [0xFF, 0xFE, 0x00, 0x68]"
    using write_then_read_round_trip [of "''/workspace/test.bin''" 1700000000 adapter0
        "engine_with_status ''running''" "''c1''" "[0xFF, 0xFE, 0x00, 0x68]" 420 h]
      c g fh
    by (simp add: b d rs)
  with b c show ?thesis by simp
qed

end
